theory Spec2Isabelle
  imports Complex_Main
begin

section \<open>LegendHelper.js: a shallow embedding\<close>

text \<open>
  The embedding follows \<^verbatim>\<open>src/lib/Map/LegendHelper.js\<close>. JavaScript numbers are modelled as
  exact reals; a value that may be \<^verbatim>\<open>undefined\<close> (or, for the result of an arithmetic
  operation, not a finite number) is a \<open>real option\<close> with \<open>None\<close> for that case. A comparison
  with \<^verbatim>\<open>undefined\<close> or \<^verbatim>\<open>NaN\<close> is false, as in JavaScript. The functions of libraries
  outside the repository (the statistics library, the canvas) are parameters of the
  functions that call them.
\<close>

subsection \<open>JavaScript values and primitive operations\<close>

datatype jsval = JNum real | JStr string | JNull | JUndefined

datatype js_error = TypeError

text \<open>\<^verbatim>\<open>typeof x === 'number'\<close>, and the numbers that the filter keeps.\<close>

fun numericalValues :: "jsval list \<Rightarrow> real list" where
  "numericalValues [] = []"
| "numericalValues (JNum x # vs) = x # numericalValues vs"
| "numericalValues (_ # vs) = numericalValues vs"

text \<open>\<^verbatim>\<open>a > b\<close> on numbers that may be undefined.\<close>

definition js_gt :: "real option \<Rightarrow> real option \<Rightarrow> bool" where
  "js_gt a b = (case a of None \<Rightarrow> False | Some x \<Rightarrow> (case b of None \<Rightarrow> False | Some y \<Rightarrow> x > y))"

text \<open>
  \<^verbatim>\<open>i / d\<close> for integers: a zero divisor gives \<^verbatim>\<open>NaN\<close> or an infinity, both of which
  are \<open>None\<close> here.
\<close>

definition js_div :: "int \<Rightarrow> int \<Rightarrow> real option" where
  "js_div i d = (if d = 0 then None else Some (real_of_int i / real_of_int d))"

text \<open>Reading an array at an index: out of range the result is \<^verbatim>\<open>undefined\<close>.\<close>

definition js_index :: "'a list \<Rightarrow> int \<Rightarrow> 'a option" where
  "js_index xs i = (if 0 \<le> i \<and> i < int (length xs) then Some (xs ! nat i) else None)"

text \<open>The same for an array whose elements may themselves be undefined.\<close>

definition js_index_opt :: "'a option list \<Rightarrow> int \<Rightarrow> 'a option" where
  "js_index_opt xs i = (case js_index xs i of None \<Rightarrow> None | Some v \<Rightarrow> v)"

text \<open>Decimal digits of a natural number, as string concatenation with a number produces them.\<close>

function show_nat :: "nat \<Rightarrow> string" where
  "show_nat n = (if n < 10 then [''0123456789'' ! n]
                 else show_nat (n div 10) @ [''0123456789'' ! (n mod 10)])"
  by pat_completeness auto
termination
  by (relation "measure (\<lambda>n. n)") auto

declare show_nat.simps [simp del]

definition show_channel :: "nat option \<Rightarrow> string" where
  "show_channel c = (case c of None \<Rightarrow> ''undefined'' | Some n \<Rightarrow> show_nat n)"

subsection \<open>Colours\<close>

text \<open>
  A colour array is \<^verbatim>\<open>[r, g, b, a]\<close> with channels from 0 to 255; a channel read out of
  the gradient's range is undefined. \<open>Color\<close> stands for the Cesium colour object, whose
  components are the quotients by 255.
\<close>

type_synonym colorArray = "nat option list"

datatype Color = Color "real option" "real option" "real option" "real option"

definition defaultColorArray :: colorArray where
  "defaultColorArray = [Some 32, Some 0, Some 200, Some 255]"

definition channel255 :: "colorArray \<Rightarrow> int \<Rightarrow> real option" where
  "channel255 c k = (case js_index_opt c k of None \<Rightarrow> None | Some n \<Rightarrow> Some (real n / 255))"

definition colorArrayToColor :: "colorArray \<Rightarrow> Color" where
  "colorArrayToColor colorArray =
     Color (channel255 colorArray 0) (channel255 colorArray 1)
           (channel255 colorArray 2) (channel255 colorArray 3)"

subsection \<open>Sampling the colour gradient\<close>

text \<open>
  The gradient is the \<^verbatim>\<open>data\<close> array of the image data: four bytes per entry. The argument
  \<open>fractionalPosition\<close> is \<open>None\<close> when the caller's quotient is not a finite number;
  every channel read is then out of range.
\<close>

definition getColorFromColorGradient :: "nat list \<Rightarrow> real option \<Rightarrow> colorArray" where
  "getColorFromColorGradient data fractionalPosition =
     (case fractionalPosition of
        None \<Rightarrow> [None, None, None, None]
      | Some f \<Rightarrow>
          (let colorIndex = \<lfloor>f * (real (length data) / 4 - 1)\<rfloor> * 4
           in [js_index data colorIndex, js_index data (colorIndex + 1),
               js_index data (colorIndex + 2), js_index data (colorIndex + 3)]))"

text \<open>
  The table view of the gradient: entry \<open>k\<close> is the four channels at \<open>4 * k\<close>, and the
  resolution is the number of entries.
\<close>

definition resolution :: "nat list \<Rightarrow> nat" where
  "resolution data = length data div 4"

definition table_entry :: "nat list \<Rightarrow> nat \<Rightarrow> colorArray" where
  "table_entry data k = [Some (data ! (4 * k)), Some (data ! (4 * k + 1)),
                         Some (data ! (4 * k + 2)), Some (data ! (4 * k + 3))]"

text \<open>
  Sampling as the specification words it: the index is clamped into the table before the read.
\<close>

definition sample_clamped :: "nat list \<Rightarrow> real \<Rightarrow> colorArray" where
  "sample_clamped data fraction =
     table_entry data
       (nat (max 0 (min (int (resolution data) - 1)
                        \<lfloor>fraction * (real (resolution data) - 1)\<rfloor>)))"

subsection \<open>Bins and the value lookup\<close>

record bin =
  upperBound :: "real option"
  color :: colorArray

text \<open>
  The scan of \<^verbatim>\<open>getColorFromValue\<close>:
  \<^verbatim>\<open>while (i < bins.length - 1 && value > bins[i].upperBound) i++\<close>.
\<close>

function scan_bins :: "bin list \<Rightarrow> real option \<Rightarrow> nat \<Rightarrow> nat" where
  "scan_bins bins v i =
     (if int i < int (length bins) - 1 \<and> js_gt v (upperBound (bins ! i))
      then scan_bins bins v (Suc i) else i)"
  by pat_completeness auto
termination
  by (relation "measure (\<lambda>(bins, v, i). length bins - i)") auto

declare scan_bins.simps [simp del]

text \<open>
  The result is the colour together with the lines written to the console; reading
  \<^verbatim>\<open>length\<close> of an undefined \<^verbatim>\<open>_binColors\<close> throws.
\<close>

definition getColorFromValue ::
  "bin list option \<Rightarrow> real option \<Rightarrow> js_error + (Color \<times> string list)" where
  "getColorFromValue binColors v =
     (if v = None then Inr (colorArrayToColor defaultColorArray, [])
      else (case binColors of
              None \<Rightarrow> Inl TypeError
            | Some bins \<Rightarrow>
                (let i = scan_bins bins v 0
                 in (case js_index bins (int i) of
                       None \<Rightarrow> Inr (colorArrayToColor [Some 0, Some 0, Some 0, Some 0],
                                    [''Bad bin '' @ show_nat i])
                     | Some b \<Rightarrow> Inr (colorArrayToColor (color b), [])))))"

subsection \<open>The table column and the table style\<close>

text \<open>
  Modelled from the spec: \<^verbatim>\<open>VarType\<close> of \<^verbatim>\<open>../Map/VarType\<close>, whose source is missing; the spec
  gives the column type tag as categorical (enumerated) or continuous.
\<close>

datatype VarType = ENUM | SCALAR

text \<open>
  The fields of a table column that this file reads (\<open>values_col\<close> and \<open>type_col\<close> are the
  source's \<^verbatim>\<open>values\<close> and \<^verbatim>\<open>type\<close>).
\<close>

record tableColumn =
  name :: string
  values_col :: "jsval list option"
  type_col :: VarType
  enumList :: "string list"
  minimumValue :: "real option"
  maximumValue :: "real option"

text \<open>
  The fields of a table style that this file reads; any other field of the object is in the
  record's extension. A colour map is a list of stops (offset, CSS colour).
\<close>

record tableStyle =
  colorBins :: "int option"
  legendTicks :: "int option"
  colorBinMethod :: string
  colorMap :: "(real \<times> string) list option"
  minDisplayValue :: "real option"
  maxDisplayValue :: "real option"

text \<open>Cesium's \<^verbatim>\<open>defaultValue(a, b)\<close>: \<open>b\<close> when \<open>a\<close> is undefined.\<close>

definition defaultValue :: "'a option \<Rightarrow> 'a \<Rightarrow> 'a" where
  "defaultValue a b = (case a of None \<Rightarrow> b | Some x \<Rightarrow> x)"

definition defaultColorMap :: "(real \<times> string) list" where
  "defaultColorMap =
     [(0, ''rgba(32,0,200,1.0)''), (1/4, ''rgba(0,200,200,1.0)''), (1/2, ''rgba(0,200,0,1.0)''),
      (3/4, ''rgba(200,200,0,1.0)''), (1, ''rgba(200,0,0,1.0)'')]"

subsection \<open>Building the bins\<close>

text \<open>
  \<^verbatim>\<open>colorBinMethod.match(/none/i)\<close>: the method contains the letters "none" in either case.
\<close>

fun match_none :: "string \<Rightarrow> bool" where
  "match_none (a # b # c # d # rest) =
     ((a \<in> {CHR ''n'', CHR ''N''} \<and> b \<in> {CHR ''o'', CHR ''O''} \<and>
       c \<in> {CHR ''n'', CHR ''N''} \<and> d \<in> {CHR ''e'', CHR ''E''})
      \<or> match_none (b # c # d # rest))"
| "match_none _ = False"

text \<open>\<^verbatim>\<open>colorBins <= 0\<close> and \<^verbatim>\<open>Math.min(colorBins, length)\<close> with a possibly undefined count.\<close>

definition js_le0 :: "int option \<Rightarrow> bool" where
  "js_le0 n = (case n of None \<Rightarrow> False | Some k \<Rightarrow> k \<le> 0)"

definition js_min :: "int option \<Rightarrow> nat \<Rightarrow> int option" where
  "js_min n len = (case n of None \<Rightarrow> None | Some k \<Rightarrow> Some (min k (int len)))"

text \<open>The last element of a cluster, \<^verbatim>\<open>c[c.length - 1]\<close>.\<close>

definition js_last :: "real list \<Rightarrow> real option" where
  "js_last c = js_index c (int (length c) - 1)"

text \<open>
  The loop of the quantile branch:
  \<^verbatim>\<open>for (i = 0; i < binCount; i++) binColors.push({upperBound: ..., color: ...})\<close>.
\<close>

function quantile_loop ::
  "(real list \<Rightarrow> real \<Rightarrow> real) \<Rightarrow> nat list \<Rightarrow> real list \<Rightarrow> int \<Rightarrow> int \<Rightarrow> bin list
     \<Rightarrow> bin list" where
  "quantile_loop quantile colorGradient nums binCount i binColors =
     (if i < binCount
      then quantile_loop quantile colorGradient nums binCount (i + 1)
             (binColors @
              [\<lparr>upperBound = Some (quantile nums (real_of_int (i + 1) / real_of_int binCount)),
                color = getColorFromColorGradient colorGradient (js_div i (binCount - 1))\<rparr>])
      else binColors)"
  by pat_completeness auto
termination
  by (relation "measure (\<lambda>(q, g, nums, binCount, i, acc). nat (binCount - i))") auto

declare quantile_loop.simps [simp del]

definition quantile_bins ::
  "(real list \<Rightarrow> real \<Rightarrow> real) \<Rightarrow> nat list \<Rightarrow> real list \<Rightarrow> int \<Rightarrow> bin list" where
  "quantile_bins quantile colorGradient nums binCount =
     quantile_loop quantile colorGradient nums binCount 0 []"

text \<open>
  The first loop of the clustering branch, which collects the upper bounds:
  \<^verbatim>\<open>for (i = 0; i < clusters.length; i++) { if (i > 0 && ...) continue; binColors.push(...) }\<close>.
\<close>

function cluster_loop :: "real list list \<Rightarrow> nat \<Rightarrow> real option list \<Rightarrow> real option list" where
  "cluster_loop clusters i bounds =
     (if i < length clusters
      then (if i > 0 \<and> length (clusters ! i) = 1
               \<and> js_index (clusters ! i) 0 = js_last (clusters ! (i - 1))
            then cluster_loop clusters (Suc i) bounds
            else cluster_loop clusters (Suc i) (bounds @ [js_last (clusters ! i)]))
      else bounds)"
  by pat_completeness auto
termination
  by (relation "measure (\<lambda>(clusters, i, bounds). length clusters - i)") auto

declare cluster_loop.simps [simp del]

definition cluster_bounds :: "real list list \<Rightarrow> real option list" where
  "cluster_bounds clusters = cluster_loop clusters 0 []"

text \<open>The second loop gives bin \<open>i\<close> its colour.\<close>

definition ckmeans_bins :: "nat list \<Rightarrow> real list list \<Rightarrow> bin list" where
  "ckmeans_bins colorGradient clusters =
     (let bounds = cluster_bounds clusters
      in map (\<lambda>i. \<lparr>upperBound = bounds ! i,
                   color = getColorFromColorGradient colorGradient
                             (js_div (int i) (int (length bounds) - 1))\<rparr>)
             [0..<length bounds])"

text \<open>
  \<open>quantile\<close> and \<open>ckmeans\<close> are the two functions of the simple-statistics library, which
  is not part of this repository; \<open>ckmeans\<close> receives the bin count as computed, which is not
  a number when \<open>colorBins\<close> is undefined, and it may throw: the error then leaves
  \<open>buildBinColors\<close>, which catches nothing. The result \<open>Inr None\<close> is \<^verbatim>\<open>undefined\<close>.
\<close>

definition use_quantile :: "string \<Rightarrow> nat \<Rightarrow> bool" where
  "use_quantile method n = (method = ''quantile'' \<or> method = ''auto'' \<and> n > 1000)"

definition buildBinColors ::
  "(real list \<Rightarrow> real \<Rightarrow> real) \<Rightarrow> (real list \<Rightarrow> int option \<Rightarrow> js_error + real list list)
     \<Rightarrow> tableColumn \<Rightarrow> 'a tableStyle_scheme \<Rightarrow> nat list \<Rightarrow> js_error + bin list option" where
  "buildBinColors quantile ckmeans tableColumn tableStyle colorGradient =
     (case values_col tableColumn of
        None \<Rightarrow> Inr None
      | Some vals \<Rightarrow>
          if js_le0 (colorBins tableStyle) \<or> match_none (colorBinMethod tableStyle)
          then Inr None
          else
            (let nums = numericalValues vals;
                 binCount = js_min (colorBins tableStyle) (length nums)
             in if use_quantile (colorBinMethod tableStyle) (length nums)
                then Inr (Some (case binCount of
                                  None \<Rightarrow> []
                                | Some n \<Rightarrow> quantile_bins quantile colorGradient nums n))
                else (case ckmeans nums binCount of
                        Inl e \<Rightarrow> Inl e
                      | Inr clusters \<Rightarrow> Inr (Some (ckmeans_bins colorGradient clusters)))))"

subsection \<open>Number formatting\<close>

text \<open>
  \<^verbatim>\<open>(k / 100).toString()\<close> for an integer \<open>k\<close>: the decimal expansion with at most two
  decimals and no trailing zero (JavaScript prints it so below \<open>10\<^sup>2\<^sup>1\<close>; minus zero
  prints as \<open>0\<close>).
\<close>

definition toString_hundredths :: "int \<Rightarrow> string" where
  "toString_hundredths k =
     (let a = nat \<bar>k\<bar>; whole = a div 100; frac = a mod 100
      in (if k < 0 then ''-'' else [])
         @ show_nat whole
         @ (if frac = 0 then []
            else if frac mod 10 = 0 then ''.'' @ show_nat (frac div 10)
            else ''.'' @ show_nat (frac div 10) @ show_nat (frac mod 10)))"

text \<open>
  \<^verbatim>\<open>Math.round(x)\<close> is \<open>\<lfloor>x + 1/2\<rfloor>\<close>. An undefined argument makes the product
  \<^verbatim>\<open>NaN\<close>, printed as such. The product is exact here; the code rounds the double
  product, which can fall on the other side of a half (0.015 prints as 0.02 there), so the
  strings agree only where the product is exact in doubles, as it is for integers.
\<close>

definition convertToStringWithAtMostTwoDecimalPlaces :: "real option \<Rightarrow> string" where
  "convertToStringWithAtMostTwoDecimalPlaces f =
     (case f of None \<Rightarrow> ''NaN'' | Some x \<Rightarrow> toString_hundredths \<lfloor>x * 100 + 1 / 2\<rfloor>)"

subsection \<open>The legend properties\<close>

text \<open>
  An item has the keys that one of the three legends gives it; an absent key and an
  undefined value are both \<open>None\<close>. \<open>title_item\<close> and \<open>color_item\<close> are the source's
  \<^verbatim>\<open>title\<close> and \<^verbatim>\<open>color\<close> of an item.
\<close>

record legendItem =
  title_item :: "string option"
  titleAbove :: "string option"
  titleBelow :: "string option"
  color_item :: "string option"

record legendProps =
  title :: string
  barHeightMin :: "nat option"
  gradientColorMap :: "(real \<times> string) list option"
  labelTickColor :: "string option"
  itemSpacing :: "nat option"
  items :: "legendItem list"

text \<open>The displayed minimum and maximum: the style overrides them unless they are equal.\<close>

definition displayMinimum :: "tableColumn \<Rightarrow> 'a tableStyle_scheme \<Rightarrow> real option" where
  "displayMinimum tableColumn tableStyle =
     (if minimumValue tableColumn \<noteq> maximumValue tableColumn
      then (case minDisplayValue tableStyle of
              Some m \<Rightarrow> Some m | None \<Rightarrow> minimumValue tableColumn)
      else minimumValue tableColumn)"

definition displayMaximum :: "tableColumn \<Rightarrow> 'a tableStyle_scheme \<Rightarrow> real option" where
  "displayMaximum tableColumn tableStyle =
     (if minimumValue tableColumn \<noteq> maximumValue tableColumn
      then (case maxDisplayValue tableStyle of
              Some m \<Rightarrow> Some m | None \<Rightarrow> maximumValue tableColumn)
      else maximumValue tableColumn)"

text \<open>\<^verbatim>\<open>minimumValue + (maximumValue - minimumValue) * (i / segments)\<close>.\<close>

definition labelPoint :: "real option \<Rightarrow> real option \<Rightarrow> int \<Rightarrow> int \<Rightarrow> real option" where
  "labelPoint lo hi i segments =
     (case lo of
        None \<Rightarrow> None
      | Some a \<Rightarrow> (case hi of
                    None \<Rightarrow> None
                  | Some b \<Rightarrow> (case js_div i segments of
                                None \<Rightarrow> None
                              | Some q \<Rightarrow> Some (a + (b - a) * q))))"

definition gradientLabelPoints ::
  "real option \<Rightarrow> real option \<Rightarrow> int option \<Rightarrow> legendItem list" where
  "gradientLabelPoints lo hi ticks =
     (case ticks of
        None \<Rightarrow> []
      | Some t \<Rightarrow>
          map (\<lambda>n. let i = int n + 1
                   in \<lparr>title_item = None,
                       titleAbove = Some (convertToStringWithAtMostTwoDecimalPlaces
                                            (labelPoint lo hi i (2 + t))),
                       titleBelow = (if i = 1
                                     then Some (convertToStringWithAtMostTwoDecimalPlaces lo)
                                     else None),
                       color_item = None\<rparr>)
              [0..<nat (2 + t)])"

text \<open>\<^verbatim>\<open>'rgb(' + b.color[0] + ',' + b.color[1] + ',' + b.color[2] + ')'\<close>.\<close>

definition rgb_string :: "colorArray \<Rightarrow> string" where
  "rgb_string c =
     ''rgb('' @ show_channel (js_index_opt c 0) @ '','' @ show_channel (js_index_opt c 1)
       @ '','' @ show_channel (js_index_opt c 2) @ '')''"

text \<open>The items of the enumerated legend and of the numeric legend, one for each bin.\<close>

definition enumItems :: "tableColumn \<Rightarrow> bin list \<Rightarrow> legendItem list" where
  "enumItems tableColumn binColors =
     map (\<lambda>i. \<lparr>title_item = js_index (enumList tableColumn) (int i),
               titleAbove = None, titleBelow = None,
               color_item = Some (rgb_string (color (binColors ! i)))\<rparr>)
         [0..<length binColors]"

definition numericItem :: "real option \<Rightarrow> bin list \<Rightarrow> nat \<Rightarrow> legendItem" where
  "numericItem lo binColors i =
     (let b = binColors ! i
      in \<lparr>title_item = None,
          titleAbove =
            (if i = 0 \<or> int i < int (length binColors) - 1
                \<or> js_gt (upperBound b) (upperBound (binColors ! (i - 1)))
             then Some (convertToStringWithAtMostTwoDecimalPlaces (upperBound b)) else None),
          titleBelow =
            (if i = 0 \<and> upperBound b \<noteq> lo
             then Some (convertToStringWithAtMostTwoDecimalPlaces lo) else None),
          color_item = Some (rgb_string (color b))\<rparr>)"

definition numericItems :: "real option \<Rightarrow> bin list \<Rightarrow> legendItem list" where
  "numericItems lo binColors = map (numericItem lo binColors) [0..<length binColors]"

text \<open>The result \<open>None\<close> is \<^verbatim>\<open>undefined\<close>: no legend.\<close>

definition buildLegendProps ::
  "tableColumn \<Rightarrow> 'a tableStyle_scheme \<Rightarrow> (real \<times> string) list \<Rightarrow> bin list option
     \<Rightarrow> legendProps option" where
  "buildLegendProps tableColumn tableStyle cmap binColors =
     (if length cmap = 1 then None
      else
        (let lo = displayMinimum tableColumn tableStyle;
             hi = displayMaximum tableColumn tableStyle
         in (case binColors of
               None \<Rightarrow>
                 Some \<lparr>title = name tableColumn, barHeightMin = Some 130,
                       gradientColorMap = Some cmap, labelTickColor = Some ''darkgray'',
                       itemSpacing = None,
                       items = gradientLabelPoints lo hi (legendTicks tableStyle)\<rparr>
             | Some bins \<Rightarrow>
                 if type_col tableColumn = ENUM
                 then Some \<lparr>title = name tableColumn, barHeightMin = None,
                            gradientColorMap = None, labelTickColor = None,
                            itemSpacing = Some 2, items = enumItems tableColumn bins\<rparr>
                 else Some \<lparr>title = name tableColumn, barHeightMin = None,
                            gradientColorMap = None, labelTickColor = None,
                            itemSpacing = Some 0, items = numericItems lo bins\<rparr>)))"

subsection \<open>The helper object and its constructor\<close>

text \<open>
  Table styles are objects shared with the caller, so they live in a heap: a reference is
  an address, \<open>objects\<close> gives the object at an address and \<open>next_free\<close> is the first
  address not yet allocated.
\<close>

record 'a heap =
  objects :: "nat \<Rightarrow> 'a tableStyle_scheme"
  next_free :: nat

text \<open>
  The helper's fields; \<open>this_legend\<close> is undefined before the legend is generated, null
  when there is none, and otherwise the legend made from the properties.
\<close>

datatype 'a js_slot = Undefined | Null | Defined 'a

record legendHelper =
  this_tableColumn :: "tableColumn option"
  this_tableStyle :: nat
  this_legend :: "legendProps js_slot"
  this_colorGradient :: "nat list option"
  this_binColors :: "bin list option"

text \<open>
  The constructor. \<open>newTableStyle\<close> is the object that \<^verbatim>\<open>new TableStyle()\<close> creates (its
  source is missing); it is allocated only when no style is passed. The two assignments
  then write through the reference.
\<close>

definition LegendHelper ::
  "'a tableStyle_scheme \<Rightarrow> tableColumn option \<Rightarrow> nat option \<Rightarrow> 'a heap
     \<Rightarrow> legendHelper \<times> 'a heap" where
  "LegendHelper newTableStyle tableColumn tableStyle h =
     (let (r, h1) =
            (case tableStyle of
               Some a \<Rightarrow> (a, h)
             | None \<Rightarrow> (next_free h,
                        h\<lparr>objects := (objects h)(next_free h := newTableStyle),
                          next_free := Suc (next_free h)\<rparr>));
          this = \<lparr>this_tableColumn = tableColumn, this_tableStyle = r, this_legend = Undefined,
                  this_colorGradient = None, this_binColors = None\<rparr>;
          o1 = objects h1 r;
          h2 = h1\<lparr>objects := (objects h1)(r := o1\<lparr>colorBins := Some (defaultValue (colorBins o1) 7)\<rparr>)\<rparr>;
          o2 = objects h2 r;
          h3 = h2\<lparr>objects := (objects h2)(r := o2\<lparr>legendTicks := Some (defaultValue (legendTicks o2) 0)\<rparr>)\<rparr>
      in (this, h3))"

text \<open>
  \<^verbatim>\<open>generateLegend\<close> fills the helper's fields. \<open>buildColorGradient\<close> stands for the function
  of that name, which draws the colour map on a canvas and returns the image data of one
  column of it. An error thrown while the bins are built leaves the function after the
  gradient has been stored.
\<close>

definition generateLegend ::
  "((real \<times> string) list \<Rightarrow> nat list) \<Rightarrow> (real list \<Rightarrow> real \<Rightarrow> real)
     \<Rightarrow> (real list \<Rightarrow> int option \<Rightarrow> js_error + real list list) \<Rightarrow> legendHelper \<Rightarrow> 'a heap
     \<Rightarrow> js_error \<times> legendHelper + legendHelper" where
  "generateLegend buildColorGradient quantile ckmeans this h =
     (case this_tableColumn this of
        None \<Rightarrow> Inr this
      | Some tableColumn \<Rightarrow>
          (let tableStyle = objects h (this_tableStyle this);
               cmap = defaultValue (colorMap tableStyle) defaultColorMap;
               colorGradient = buildColorGradient cmap;
               this1 = this\<lparr>this_colorGradient := Some colorGradient\<rparr>
           in (case buildBinColors quantile ckmeans tableColumn tableStyle colorGradient of
                 Inl e \<Rightarrow> Inl (e, this1)
               | Inr binColors \<Rightarrow>
                   (let this2 = this1\<lparr>this_binColors := binColors\<rparr>;
                        legendProps = buildLegendProps tableColumn tableStyle cmap binColors
                    in Inr (this2\<lparr>this_legend := (case legendProps of
                                                      Some p \<Rightarrow> Defined p
                                                    | None \<Rightarrow> Null)\<rparr>)))))"

subsection \<open>The statistics library\<close>

text \<open>
  \<^verbatim>\<open>simplestats.quantile\<close> as the simple-statistics library computes it (the library is not
  part of the repository). On the sorted sample of \<open>n\<close> values and for \<open>p\<close> from 0 to 1, the
  only arguments the code passes: the last value at \<open>p = 1\<close> and the first at \<open>p = 0\<close>;
  otherwise, with \<open>idx = n * p\<close>, the value at \<open>\<lceil>idx\<rceil> - 1\<close> when \<open>idx\<close> is not an
  integer, and when it is, the mean of the values at \<open>idx - 1\<close> and \<open>idx\<close> for an even \<open>n\<close>
  and the value at \<open>idx\<close> for an odd \<open>n\<close>.
\<close>

definition quantileSorted :: "real list \<Rightarrow> real \<Rightarrow> real" where
  "quantileSorted s p =
     (let idx = real (length s) * p
      in if p = 1 then s ! (length s - 1)
         else if p = 0 then s ! 0
         else if idx \<noteq> of_int \<lfloor>idx\<rfloor> then s ! (nat \<lceil>idx\<rceil> - 1)
         else if even (length s) then (s ! (nat \<lfloor>idx\<rfloor> - 1) + s ! nat \<lfloor>idx\<rfloor>) / 2
         else s ! nat \<lfloor>idx\<rfloor>)"

definition simplestats_quantile :: "real list \<Rightarrow> real \<Rightarrow> real" where
  "simplestats_quantile xs p = quantileSorted (sort xs) p"

subsection \<open>The statistics library, from its description\<close>

text \<open>
  Modelled from the spec: the interpolation step of \<^verbatim>\<open>simplestats.quantile\<close>, a function of
  the simple-statistics library, whose source is missing. This is the value at the fractional
  position \<open>h\<close> of a sorted sample, found by linear interpolation between the two order
  statistics around \<open>h\<close>.
\<close>

definition interpolate :: "real list \<Rightarrow> real \<Rightarrow> real" where
  "interpolate s h =
     (let lo = nat \<lfloor>h\<rfloor>;
          hi = min (lo + 1) (length s - 1)
      in s ! lo + (h - real lo) * (s ! hi - s ! lo))"

text \<open>
  Modelled from the spec: \<^verbatim>\<open>simplestats.quantile\<close>, whose source is missing. The spec gives it
  as the type-7 estimator: linear interpolation between the order statistics at the position
  \<open>(n - 1) * p\<close>, for a non-empty sample of \<open>n\<close> values and \<open>p\<close> from 0 to 1 (the only
  arguments the code passes).
\<close>

definition quantile_R7 :: "real list \<Rightarrow> real \<Rightarrow> real" where
  "quantile_R7 xs p = interpolate (sort xs) ((real (length xs) - 1) * p)"

text \<open>
  Modelled from the spec: the candidate partitions of \<^verbatim>\<open>simplestats.ckmeans\<close>, of the same
  library, whose source is missing: all splits of a list into \<open>k\<close> non-empty consecutive runs.
\<close>

fun splits :: "nat \<Rightarrow> 'a list \<Rightarrow> 'a list list list" where
  "splits 0 xs = (if xs = [] then [[]] else [])"
| "splits (Suc k) xs =
     concat (map (\<lambda>n. map ((#) (take n xs)) (splits k (drop n xs))) [1..<Suc (length xs)])"

text \<open>
  Modelled from the spec: the within-cluster variance that \<^verbatim>\<open>simplestats.ckmeans\<close> minimises,
  as the sum over the clusters of the squared deviations from the cluster's mean.
\<close>

definition mean :: "real list \<Rightarrow> real" where
  "mean xs = sum_list xs / real (length xs)"

definition ssq :: "real list \<Rightarrow> real" where
  "ssq xs = sum_list (map (\<lambda>x. (x - mean xs)\<^sup>2) xs)"

definition cost :: "real list list \<Rightarrow> real" where
  "cost p = sum_list (map ssq p)"

text \<open>
  Modelled from the spec: the choice of \<^verbatim>\<open>simplestats.ckmeans\<close> among the candidates, one
  of least cost; of several of the same cost it is the last, the one whose earlier clusters
  are larger.
\<close>

fun best_split :: "real list list \<Rightarrow> real list list list \<Rightarrow> real list list" where
  "best_split p [] = p"
| "best_split p (q # qs) = best_split (if cost q \<le> cost p then q else p) qs"

text \<open>
  Modelled from the spec: \<^verbatim>\<open>simplestats.ckmeans\<close>, whose source is missing. The spec gives it
  as the partition of the sorted sample into the requested number of clusters that has the
  least within-cluster variance, which exists for a non-empty sample and a number of
  clusters from 1 to its length. The spec says nothing of an empty sample: there the library
  throws a \<^verbatim>\<open>TypeError\<close> (with no cluster requested it reads the length of a matrix row
  that does not exist), and so does the model, as it does for the other arguments without
  such a partition, which the code never passes.
\<close>

definition ckmeans_model :: "real list \<Rightarrow> int option \<Rightarrow> js_error + real list list" where
  "ckmeans_model xs k =
     (case k of
        None \<Rightarrow> Inl TypeError
      | Some n \<Rightarrow>
          if xs = [] then Inl TypeError
          else (case splits (nat n) (sort xs) of
                  [] \<Rightarrow> Inl TypeError
                | p # ps \<Rightarrow> Inr (best_split p ps)))"

text \<open>
  What the code relies on from the two library functions, whatever their implementation:
  a quantile is monotone in \<open>p\<close> and is the maximum at \<open>p = 1\<close>; for a non-empty sample and
  a number of clusters from 1 to its length, \<open>ckmeans\<close> returns, and the clusters are at most
  the requested number of non-empty consecutive runs of the sorted sample.
\<close>

definition quantile_contract :: "(real list \<Rightarrow> real \<Rightarrow> real) \<Rightarrow> bool" where
  "quantile_contract quantile =
     (\<forall>xs. xs \<noteq> [] \<longrightarrow>
        quantile xs 1 = Max (set xs) \<and>
        (\<forall>p p'. 0 \<le> p \<and> p \<le> p' \<and> p' \<le> 1 \<longrightarrow> quantile xs p \<le> quantile xs p'))"

definition ckmeans_contract ::
  "(real list \<Rightarrow> int option \<Rightarrow> js_error + real list list) \<Rightarrow> bool" where
  "ckmeans_contract ckmeans =
     (\<forall>xs k. xs \<noteq> [] \<and> 1 \<le> k \<and> k \<le> int (length xs) \<longrightarrow>
        (\<exists>clusters. ckmeans xs (Some k) = Inr clusters \<and>
           concat clusters = sort xs \<and>
           [] \<notin> set clusters \<and>
           int (length clusters) \<le> k))"

subsection \<open>The claims' vocabulary\<close>

text \<open>
  Cluster \<open>i\<close> is dropped: it is not the first, has one element, and that element is the
  last element of the cluster before it.
\<close>

definition dropped :: "real list list \<Rightarrow> nat \<Rightarrow> bool" where
  "dropped clusters i =
     (i > 0 \<and> length (clusters ! i) = 1 \<and> clusters ! (i - 1) \<noteq> [] \<and>
      hd (clusters ! i) = last (clusters ! (i - 1)))"

text \<open>The first bin whose upper bound is at least the value, or else the last bin.\<close>

definition ge_bound :: "real \<Rightarrow> bin \<Rightarrow> bool" where
  "ge_bound v b = (case upperBound b of None \<Rightarrow> False | Some u \<Rightarrow> v \<le> u)"

definition first_bin_color :: "bin list \<Rightarrow> real \<Rightarrow> colorArray" where
  "first_bin_color bins v =
     (case find (ge_bound v) bins of Some b \<Rightarrow> color b | None \<Rightarrow> color (last bins))"

section \<open>The value lookup\<close>

lemma scan_bins_range: "i < length bins \<Longrightarrow> scan_bins bins v i < length bins"
proof (induction bins v i rule: scan_bins.induct)
  case (1 bins v i)
  show ?case
  proof (cases "int i < int (length bins) - 1 \<and> js_gt v (upperBound (bins ! i))")
    case True
    then have "Suc i < length bins" by linarith
    with 1 True show ?thesis by (auto simp add: scan_bins.simps [of bins v i])
  next
    case False
    with 1 show ?thesis by (auto simp add: scan_bins.simps [of bins v i])
  qed
qed

lemma scan_bins_find:
  "i < length bins \<Longrightarrow> \<forall>b\<in>set bins. upperBound b \<noteq> None \<Longrightarrow>
   bins ! scan_bins bins (Some v) i =
     (case find (ge_bound v) (drop i bins) of Some b \<Rightarrow> b | None \<Rightarrow> last bins)"
proof (induction bins "Some v" i rule: scan_bins.induct)
  case (1 bins i)
  from 1 obtain u where u: "upperBound (bins ! i) = Some u"
    by (metis nth_mem option.exhaust)
  have dr: "drop i bins = bins ! i # drop (Suc i) bins"
    using 1 by (simp add: Cons_nth_drop_Suc)
  show ?case
  proof (cases "int i < int (length bins) - 1 \<and> js_gt (Some v) (upperBound (bins ! i))")
    case True
    then have lt: "Suc i < length bins" by linarith
    from True u have "\<not> ge_bound v (bins ! i)" by (simp add: js_gt_def ge_bound_def)
    with 1 True lt dr show ?thesis
      by (auto simp add: scan_bins.simps [of bins "Some v" i])
  next
    case False
    then have sc: "scan_bins bins (Some v) i = i"
      by (auto simp add: scan_bins.simps [of bins "Some v" i])
    show ?thesis
    proof (cases "ge_bound v (bins ! i)")
      case True
      with sc dr show ?thesis by simp
    next
      case nge: False
      with u have "js_gt (Some v) (upperBound (bins ! i))"
        by (simp add: js_gt_def ge_bound_def)
      with False have "\<not> int i < int (length bins) - 1" by simp
      with 1 have e: "Suc i = length bins" by linarith
      then have ne: "bins \<noteq> []" and i: "i = length bins - 1" by auto
      from e have d: "drop (Suc i) bins = []" by simp
      from ne i have "last bins = bins ! i" by (simp add: last_conv_nth)
      with d sc dr nge show ?thesis by simp
    qed
  qed
qed

text \<open>
  Claim C4. For an undefined value \<open>getColorFromValue\<close> returns the default colour whatever
  the bins are (also when there are none). For a defined value and a non-empty bin sequence
  (with numeric upper bounds) it returns the colour of the first bin whose upper bound is at
  least the value, and the colour of the last bin when the value exceeds every upper bound;
  nothing is written to the console.
\<close>

theorem getColorFromValue_first_bin:
  "getColorFromValue binColors None = Inr (colorArrayToColor defaultColorArray, []) \<and>
   (bins \<noteq> [] \<longrightarrow> (\<forall>b\<in>set bins. upperBound b \<noteq> None) \<longrightarrow>
     getColorFromValue (Some bins) (Some v)
       = Inr (colorArrayToColor (first_bin_color bins v), []))"
proof (intro conjI impI)
  show "getColorFromValue binColors None = Inr (colorArrayToColor defaultColorArray, [])"
    by (simp add: getColorFromValue_def)
next
  assume ne: "bins \<noteq> []" and df: "\<forall>b\<in>set bins. upperBound b \<noteq> None"
  then have l: "0 < length bins" by simp
  from scan_bins_range [OF l] have r: "scan_bins bins (Some v) 0 < length bins" .
  from scan_bins_find [OF l df, of v]
  have "color (bins ! scan_bins bins (Some v) 0) = first_bin_color bins v"
    by (simp add: first_bin_color_def split: option.splits)
  with r show "getColorFromValue (Some bins) (Some v)
      = Inr (colorArrayToColor (first_bin_color bins v), [])"
    by (simp add: getColorFromValue_def js_index_def Let_def)
qed

theorem getColorFromValue_first_bin_witness:
  "getColorFromValue
     (Some [\<lparr>upperBound = Some 10, color = [Some 1, Some 2, Some 3, Some 255]\<rparr>,
            \<lparr>upperBound = Some 20, color = [Some 4, Some 5, Some 6, Some 255]\<rparr>,
            \<lparr>upperBound = Some 30, color = [Some 7, Some 8, Some 9, Some 255]\<rparr>])
     (Some 15)
   = Inr (colorArrayToColor [Some 4, Some 5, Some 6, Some 255], [])"
  using getColorFromValue_first_bin
    [of None "[\<lparr>upperBound = Some 10, color = [Some 1, Some 2, Some 3, Some 255]\<rparr>,
               \<lparr>upperBound = Some 20, color = [Some 4, Some 5, Some 6, Some 255]\<rparr>,
               \<lparr>upperBound = Some 30, color = [Some 7, Some 8, Some 9, Some 255]\<rparr>]" 15]
  by (simp add: first_bin_color_def ge_bound_def)

text \<open>
  Claim C9. For every non-empty bin sequence the scan of \<open>getColorFromValue\<close> ends at a bin
  of the sequence: the result is that bin's colour, the branch that returns transparent
  black is not taken (nothing is written to the console), and no error is thrown. The scan
  is a total function, so the lookup always returns.
\<close>

theorem getColorFromValue_defined_bin:
  "bins \<noteq> [] \<Longrightarrow>
   \<exists>b\<in>set bins. getColorFromValue (Some bins) (Some v) = Inr (colorArrayToColor (color b), [])"
proof -
  assume "bins \<noteq> []"
  then have l: "0 < length bins" by simp
  from scan_bins_range [OF l] have r: "scan_bins bins (Some v) 0 < length bins" .
  then have "getColorFromValue (Some bins) (Some v) =
      Inr (colorArrayToColor (color (bins ! scan_bins bins (Some v) 0)), [])"
    by (simp add: getColorFromValue_def js_index_def Let_def)
  with r show ?thesis using nth_mem by blast
qed

theorem getColorFromValue_defined_bin_witness:
  "[\<lparr>upperBound = Some 10, color = [Some 1, Some 2, Some 3, Some 255]\<rparr>] \<noteq> [] \<and>
   (\<exists>b\<in>set [\<lparr>upperBound = Some 10, color = [Some 1, Some 2, Some 3, Some 255]\<rparr>].
      getColorFromValue
        (Some [\<lparr>upperBound = Some 10, color = [Some 1, Some 2, Some 3, Some 255]\<rparr>]) (Some 99)
      = Inr (colorArrayToColor (color b), []))"
  using getColorFromValue_defined_bin
    [of "[\<lparr>upperBound = Some 10, color = [Some 1, Some 2, Some 3, Some 255]\<rparr>]" 99]
  by simp

text \<open>
  Outside the claim's hypothesis the lookup does fail or degrade: with an empty bin array
  (as \<open>buildBinColors\<close> returns for the quantile method on a sample without numbers) the
  transparent colour is returned and the diagnostic is written, and with undefined bins (no
  binning, or no legend generated yet) reading the length throws.
\<close>

lemma getColorFromValue_empty_bins:
  "getColorFromValue (Some []) (Some v)
     = Inr (Color (Some 0) (Some 0) (Some 0) (Some 0), [''Bad bin 0''])"
  by (simp add: getColorFromValue_def scan_bins.simps js_index_def show_nat.simps
      colorArrayToColor_def channel255_def js_index_opt_def)

lemma getColorFromValue_undefined_bins: "getColorFromValue None (Some v) = Inl TypeError"
  by (simp add: getColorFromValue_def)

section \<open>Sampling the gradient\<close>

lemma gradient_in_range:
  assumes len: "length data = 4 * r" and r: "0 < r" and f0: "0 \<le> f" and f1: "f \<le> 1"
  shows "getColorFromColorGradient data (Some f) = table_entry data (nat \<lfloor>f * (real r - 1)\<rfloor>)"
    and "nat \<lfloor>f * (real r - 1)\<rfloor> < r"
proof -
  define k where "k = \<lfloor>f * (real r - 1)\<rfloor>"
  have r1: "0 \<le> real r - 1" using r by simp
  have "0 \<le> f * (real r - 1)" using f0 r1 by simp
  then have k0: "0 \<le> k" by (simp add: k_def)
  have "f * (real r - 1) \<le> 1 * (real r - 1)" using f1 r1 by (rule mult_right_mono)
  then have "f * (real r - 1) \<le> real_of_int (int r - 1)" using r by simp
  then have "k \<le> int r - 1" unfolding k_def by (metis floor_mono floor_of_int)
  with k0 have "nat k < r" by linarith
  then show kr: "nat \<lfloor>f * (real r - 1)\<rfloor> < r" by (simp add: k_def)
  have e: "real (length data) / 4 - 1 = real r - 1" using len by simp
  from k0 kr have "4 * nat k + 3 < length data" using len by (simp add: k_def)
  moreover have "nat (k * 4) = 4 * nat k" "nat (k * 4 + 1) = 4 * nat k + 1"
    "nat (k * 4 + 2) = 4 * nat k + 2" "nat (k * 4 + 3) = 4 * nat k + 3"
    using k0 by (simp_all add: nat_mult_distrib nat_add_distrib)
  moreover have "k * 4 + 3 < int (length data)" using calculation(1) k0 by linarith
  ultimately show
    "getColorFromColorGradient data (Some f) = table_entry data (nat \<lfloor>f * (real r - 1)\<rfloor>)"
    using k0 unfolding getColorFromColorGradient_def table_entry_def
    by (simp add: e k_def [symmetric] Let_def js_index_def)
qed

text \<open>
  Claim C6. On a gradient table of at least one entry (four bytes each) and for a fraction
  from 0 to 1, the sample is the entry at the index \<open>\<lfloor>fraction * (resolution - 1)\<rfloor>\<close>
  clamped into the table: the index is inside the table as it is, so the read of the code,
  which has no clamping step of its own, gives what the clamped read gives. The fraction 0
  gives the first entry and the fraction 1 the last.
\<close>

theorem getColorFromColorGradient_entry:
  assumes "4 \<le> length data" and "4 dvd length data" and "0 \<le> f" and "f \<le> 1"
  shows "getColorFromColorGradient data (Some f)
           = table_entry data (nat \<lfloor>f * (real (resolution data) - 1)\<rfloor>)
         \<and> nat \<lfloor>f * (real (resolution data) - 1)\<rfloor> < resolution data
         \<and> getColorFromColorGradient data (Some f) = sample_clamped data f
         \<and> getColorFromColorGradient data (Some 0) = table_entry data 0
         \<and> getColorFromColorGradient data (Some 1) = table_entry data (resolution data - 1)"
proof -
  from assms have len: "length data = 4 * resolution data" and r: "0 < resolution data"
    by (auto simp: resolution_def)
  note g = gradient_in_range [OF len r]
  have a: "getColorFromColorGradient data (Some f)
           = table_entry data (nat \<lfloor>f * (real (resolution data) - 1)\<rfloor>)"
    and b: "nat \<lfloor>f * (real (resolution data) - 1)\<rfloor> < resolution data"
    using g [OF assms(3,4)] by simp_all
  have k0: "0 \<le> \<lfloor>f * (real (resolution data) - 1)\<rfloor>"
    using assms(3) r by simp
  from b k0
  have "max 0 (min (int (resolution data) - 1) \<lfloor>f * (real (resolution data) - 1)\<rfloor>)
      = \<lfloor>f * (real (resolution data) - 1)\<rfloor>"
    by linarith
  then have c: "sample_clamped data f
      = table_entry data (nat \<lfloor>f * (real (resolution data) - 1)\<rfloor>)"
    unfolding sample_clamped_def by simp
  have d: "getColorFromColorGradient data (Some 0) = table_entry data 0"
    using g(1) [of 0] by simp
  have "nat \<lfloor>1 * (real (resolution data) - 1)\<rfloor> = resolution data - 1"
    using r by (simp add: nat_diff_distrib' flip: of_nat_diff)
  then have e: "getColorFromColorGradient data (Some 1) = table_entry data (resolution data - 1)"
    using g(1) [of 1] by simp
  from a b c d e show ?thesis by simp
qed

theorem getColorFromColorGradient_entry_witness:
  "4 \<le> length [1, 2, 3, 4, 5, 6, 7, 8 :: nat] \<and> 4 dvd length [1, 2, 3, 4, 5, 6, 7, 8 :: nat] \<and>
   (0::real) \<le> 1 / 2 \<and> (1::real) / 2 \<le> 1 \<and>
   getColorFromColorGradient [1, 2, 3, 4, 5, 6, 7, 8] (Some (1 / 2))
     = [Some 1, Some 2, Some 3, Some 4] \<and>
   getColorFromColorGradient [1, 2, 3, 4, 5, 6, 7, 8] (Some 0) = [Some 1, Some 2, Some 3, Some 4] \<and>
   getColorFromColorGradient [1, 2, 3, 4, 5, 6, 7, 8] (Some 1) = [Some 5, Some 6, Some 7, Some 8]"
proof -
  have l: "length [1, 2, 3, 4, 5, 6, 7, 8 :: nat] = 8" by simp
  have h1: "4 \<le> length [1, 2, 3, 4, 5, 6, 7, 8 :: nat]" by simp
  have h2: "4 dvd length [1, 2, 3, 4, 5, 6, 7, 8 :: nat]" unfolding l by simp
  have h3: "(0::real) \<le> 1 / 2" and h4: "(1::real) / 2 \<le> 1" by simp_all
  from getColorFromColorGradient_entry [OF h1 h2 h3 h4] h2
  show ?thesis by (simp add: table_entry_def resolution_def)
qed

section \<open>The legend\<close>

text \<open>
  Claim C8. When the colour map has exactly one stop, \<open>buildLegendProps\<close> returns
  undefined (no legend), whatever the column, the style and the bins are.
\<close>

theorem buildLegendProps_single_stop:
  "length cmap = 1 \<Longrightarrow> buildLegendProps tableColumn tableStyle cmap binColors = None"
  by (simp add: buildLegendProps_def)

theorem buildLegendProps_single_stop_witness:
  "length [(0::real, ''red'')] = 1 \<and>
   buildLegendProps
     \<lparr>name = ''v'', values_col = None, type_col = SCALAR, enumList = [],
      minimumValue = Some 5, maximumValue = Some 30\<rparr>
     \<lparr>colorBins = Some 3, legendTicks = Some 0, colorBinMethod = ''auto'', colorMap = None,
      minDisplayValue = None, maxDisplayValue = None\<rparr>
     [(0, ''red'')]
     (Some [\<lparr>upperBound = Some 10, color = [Some 1, Some 2, Some 3, Some 255]\<rparr>]) = None"
  using buildLegendProps_single_stop
    [of "[(0, ''red'')]"
      "\<lparr>name = ''v'', values_col = None, type_col = SCALAR, enumList = [],
        minimumValue = Some 5, maximumValue = Some 30\<rparr>"
      "\<lparr>colorBins = Some 3, legendTicks = Some 0, colorBinMethod = ''auto'', colorMap = None,
        minDisplayValue = None, maxDisplayValue = None\<rparr>"
      "Some [\<lparr>upperBound = Some 10, color = [Some 1, Some 2, Some 3, Some 255]\<rparr>]"]
  by simp

text \<open>
  Claim C5. In the numeric legend (more than one colour stop or none, bins present, column
  not enumerated) there is one item for each bin. The title above item \<open>i\<close> is the formatted
  upper bound, except that it is absent when \<open>i\<close> is the last item, is not item 0, and its
  upper bound is not greater than the upper bound before it. The title below is the
  formatted displayed minimum on item 0 when bin 0's upper bound differs from it, and is
  absent on every other item.
\<close>

theorem buildLegendProps_numeric_titles:
  assumes "length cmap \<noteq> 1" and "type_col tableColumn \<noteq> ENUM"
  shows "\<exists>props. buildLegendProps tableColumn tableStyle cmap (Some bins) = Some props \<and>
     itemSpacing props = Some 0 \<and>
     map titleAbove (items props) =
       map (\<lambda>i. if i \<noteq> 0 \<and> i = length bins - 1
                     \<and> \<not> js_gt (upperBound (bins ! i)) (upperBound (bins ! (i - 1)))
                  then None
                  else Some (convertToStringWithAtMostTwoDecimalPlaces (upperBound (bins ! i))))
           [0..<length bins] \<and>
     map titleBelow (items props) =
       map (\<lambda>i. if i = 0 \<and> upperBound (bins ! 0) \<noteq> displayMinimum tableColumn tableStyle
                  then Some (convertToStringWithAtMostTwoDecimalPlaces
                               (displayMinimum tableColumn tableStyle))
                  else None)
           [0..<length bins]"
proof -
  have a: "titleAbove (numericItem lo bins i) =
      (if i \<noteq> 0 \<and> i = length bins - 1
          \<and> \<not> js_gt (upperBound (bins ! i)) (upperBound (bins ! (i - 1)))
       then None
       else Some (convertToStringWithAtMostTwoDecimalPlaces (upperBound (bins ! i))))"
    if "i < length bins" for i lo
  proof -
    from that have "int i < int (length bins) - 1 \<longleftrightarrow> i \<noteq> length bins - 1"
      by linarith
    then show ?thesis by (simp add: numericItem_def Let_def)
  qed
  have b: "titleBelow (numericItem lo bins i) =
      (if i = 0 \<and> upperBound (bins ! 0) \<noteq> lo
       then Some (convertToStringWithAtMostTwoDecimalPlaces lo) else None)" for i lo
    by (auto simp: numericItem_def Let_def)
  show ?thesis
    using assms by (simp add: buildLegendProps_def Let_def numericItems_def a b)
qed

theorem buildLegendProps_numeric_titles_witness:
  "\<exists>props. buildLegendProps
      \<lparr>name = ''v'', values_col = None, type_col = SCALAR,
           enumList = [], minimumValue = Some 5, maximumValue = Some 30\<rparr>
      \<lparr>colorBins = Some 3, legendTicks = Some 0, colorBinMethod = ''auto'', colorMap = None,
        minDisplayValue = None, maxDisplayValue = None\<rparr>
      [(0, ''red''), (1, ''blue'')]
      (Some [\<lparr>upperBound = Some 10, color = [Some 1, Some 2, Some 3, Some 255]\<rparr>,
             \<lparr>upperBound = Some 30, color = [Some 4, Some 5, Some 6, Some 255]\<rparr>,
             \<lparr>upperBound = Some 30, color = [Some 7, Some 8, Some 9, Some 255]\<rparr>]) = Some props \<and>
    itemSpacing props = Some 0 \<and>
    map titleAbove (items props) = [Some ''10'', Some ''30'', None] \<and>
    map titleBelow (items props) = [Some ''5'', None, None]"
  using buildLegendProps_numeric_titles [of "[(0, ''red''), (1, ''blue'')]"
      "\<lparr>name = ''v'', values_col = None, type_col = SCALAR,
           enumList = [], minimumValue = Some 5, maximumValue = Some 30\<rparr>"
      "\<lparr>colorBins = Some 3, legendTicks = Some 0, colorBinMethod = ''auto'', colorMap = None,
        minDisplayValue = None, maxDisplayValue = None\<rparr>"
      "[\<lparr>upperBound = Some 10, color = [Some 1, Some 2, Some 3, Some 255]\<rparr>,
             \<lparr>upperBound = Some 30, color = [Some 4, Some 5, Some 6, Some 255]\<rparr>,
             \<lparr>upperBound = Some 30, color = [Some 7, Some 8, Some 9, Some 255]\<rparr>]"]
  by (simp add: js_gt_def displayMinimum_def convertToStringWithAtMostTwoDecimalPlaces_def
      toString_hundredths_def show_nat.simps Let_def)

section \<open>The constructor\<close>

text \<open>
  Claim C10. Constructing a helper with a caller's table style writes through the
  reference: afterwards the caller's object has \<open>colorBins\<close> set to 7 if it was undefined
  (and as it was otherwise), \<open>legendTicks\<close> set to 0 if it was undefined (and as it was
  otherwise), and every other field as before, those outside this file included. No other
  object of the heap changes and none is allocated.
\<close>

theorem LegendHelper_mutates_style:
  "this_tableStyle (fst (LegendHelper nts col (Some a) h)) = a \<and>
   colorBins (objects (snd (LegendHelper nts col (Some a) h)) a)
     = Some (case colorBins (objects h a) of None \<Rightarrow> 7 | Some c \<Rightarrow> c) \<and>
   legendTicks (objects (snd (LegendHelper nts col (Some a) h)) a)
     = Some (case legendTicks (objects h a) of None \<Rightarrow> 0 | Some t \<Rightarrow> t) \<and>
   colorBinMethod (objects (snd (LegendHelper nts col (Some a) h)) a)
     = colorBinMethod (objects h a) \<and>
   colorMap (objects (snd (LegendHelper nts col (Some a) h)) a) = colorMap (objects h a) \<and>
   minDisplayValue (objects (snd (LegendHelper nts col (Some a) h)) a)
     = minDisplayValue (objects h a) \<and>
   maxDisplayValue (objects (snd (LegendHelper nts col (Some a) h)) a)
     = maxDisplayValue (objects h a) \<and>
   tableStyle.more (objects (snd (LegendHelper nts col (Some a) h)) a)
     = tableStyle.more (objects h a) \<and>
   (\<forall>b. b \<noteq> a \<longrightarrow> objects (snd (LegendHelper nts col (Some a) h)) b = objects h b) \<and>
   next_free (snd (LegendHelper nts col (Some a) h)) = next_free h"
  by (simp add: LegendHelper_def Let_def defaultValue_def)

theorem LegendHelper_mutates_style_witness:
  "colorBins (objects (snd (LegendHelper
      \<lparr>colorBins = None, legendTicks = None, colorBinMethod = ''auto'', colorMap = None,
        minDisplayValue = None, maxDisplayValue = None\<rparr> None (Some 0)
      \<lparr>objects = (\<lambda>a. \<lparr>colorBins = None, legendTicks = Some 3, colorBinMethod = ''quantile'',
                        colorMap = None, minDisplayValue = Some 1, maxDisplayValue = None\<rparr>),
        next_free = 2\<rparr>)) 0) = Some 7 \<and>
   legendTicks (objects (snd (LegendHelper
      \<lparr>colorBins = None, legendTicks = None, colorBinMethod = ''auto'', colorMap = None,
        minDisplayValue = None, maxDisplayValue = None\<rparr> None (Some 0)
      \<lparr>objects = (\<lambda>a. \<lparr>colorBins = None, legendTicks = Some 3, colorBinMethod = ''quantile'',
                        colorMap = None, minDisplayValue = Some 1, maxDisplayValue = None\<rparr>),
        next_free = 2\<rparr>)) 0) = Some 3 \<and>
   (1::nat) \<noteq> 0 \<and>
   colorBins (objects (snd (LegendHelper
      \<lparr>colorBins = None, legendTicks = None, colorBinMethod = ''auto'', colorMap = None,
        minDisplayValue = None, maxDisplayValue = None\<rparr> None (Some 0)
      \<lparr>objects = (\<lambda>a. \<lparr>colorBins = None, legendTicks = Some 3, colorBinMethod = ''quantile'',
                        colorMap = None, minDisplayValue = Some 1, maxDisplayValue = None\<rparr>),
        next_free = 2\<rparr>)) 1) = None"
  using LegendHelper_mutates_style
    [of "\<lparr>colorBins = None, legendTicks = None, colorBinMethod = ''auto'', colorMap = None,
          minDisplayValue = None, maxDisplayValue = None\<rparr>" None 0
        "\<lparr>objects = (\<lambda>a. \<lparr>colorBins = None, legendTicks = Some 3, colorBinMethod = ''quantile'',
                        colorMap = None, minDisplayValue = Some 1, maxDisplayValue = None\<rparr>),
          next_free = 2\<rparr>"]
  by simp

section \<open>Building the bins\<close>

subsection \<open>The two loops\<close>

lemma quantile_loop_eq:
  "0 \<le> i \<Longrightarrow>
   quantile_loop q g nums bc i acc =
     acc @ map (\<lambda>j. \<lparr>upperBound = Some (q nums (real (j + 1) / real_of_int bc)),
                      color = getColorFromColorGradient g (js_div (int j) (bc - 1))\<rparr>)
               [nat i..<nat bc]"
proof (induction q g nums bc i acc rule: quantile_loop.induct)
  case (1 q g nums bc i acc)
  show ?case
  proof (cases "i < bc")
    case True
    with 1 have u: "[nat i..<nat bc] = nat i # [nat (i + 1)..<nat bc]"
      by (simp add: upt_conv_Cons nat_add_distrib)
    have r: "real_of_int (i + 1) = real (nat i + 1)" using 1(2) by simp
    have "quantile_loop q g nums bc i acc = quantile_loop q g nums bc (i + 1)
             (acc @ [\<lparr>upperBound = Some (q nums (real_of_int (i + 1) / real_of_int bc)),
                color = getColorFromColorGradient g (js_div i (bc - 1))\<rparr>])"
      using True by (simp add: quantile_loop.simps [of q g nums bc i acc])
    also have "\<dots> = (acc @ [\<lparr>upperBound = Some (q nums (real_of_int (i + 1) / real_of_int bc)),
                color = getColorFromColorGradient g (js_div i (bc - 1))\<rparr>]) @
         map (\<lambda>j. \<lparr>upperBound = Some (q nums (real (j + 1) / real_of_int bc)),
                      color = getColorFromColorGradient g (js_div (int j) (bc - 1))\<rparr>)
               [nat (i + 1)..<nat bc]"
      using 1 True by simp
    finally show ?thesis using 1(2) by (simp add: u r del: of_int_add)
  next
    case False
    then show ?thesis by (simp add: quantile_loop.simps [of q g nums bc i acc])
  qed
qed

lemma quantile_bins_bounds:
  "map upperBound (quantile_bins q g nums bc) =
     map (\<lambda>j. Some (q nums (real (j + 1) / real_of_int bc))) [0..<nat bc]"
  by (simp add: quantile_bins_def quantile_loop_eq o_def)

text \<open>
  With a single bin the fractional position is \<^verbatim>\<open>0 / 0\<close>, so the channels of its colour are
  undefined.
\<close>

lemma quantile_bins_single:
  "quantile_bins q g nums 1
     = [\<lparr>upperBound = Some (q nums 1), color = [None, None, None, None]\<rparr>]"
  by (simp add: quantile_bins_def quantile_loop_eq js_div_def getColorFromColorGradient_def)

lemma js_last_eq: "js_last c = (if c = [] then None else Some (last c))"
  by (auto simp: js_last_def js_index_def last_conv_nth nat_diff_distrib')

lemma skip_dropped:
  "(i > 0 \<and> length (cs ! i) = 1 \<and> js_index (cs ! i) 0 = js_last (cs ! (i - 1)))
     = dropped cs i"
proof (cases "length (cs ! i) = 1")
  case True
  then have "js_index (cs ! i) 0 = Some (hd (cs ! i))"
    by (cases "cs ! i") (simp_all add: js_index_def)
  then show ?thesis by (auto simp: dropped_def js_last_eq)
next
  case False
  then show ?thesis by (simp add: dropped_def)
qed

lemma cluster_loop_eq:
  "cluster_loop cs i acc =
     acc @ map (\<lambda>j. js_last (cs ! j)) (filter (\<lambda>j. \<not> dropped cs j) [i..<length cs])"
proof (induction cs i acc rule: cluster_loop.induct)
  case (1 cs i acc)
  show ?case
  proof (cases "i < length cs")
    case True
    then have u: "[i..<length cs] = i # [Suc i..<length cs]" by (simp add: upt_conv_Cons)
    show ?thesis
    proof (cases "dropped cs i")
      case d: True
      then have "cluster_loop cs i acc = cluster_loop cs (Suc i) acc"
        using True skip_dropped [of i cs] by (simp add: cluster_loop.simps [of cs i acc])
      with 1(1) True d u show ?thesis using skip_dropped [of i cs] by simp
    next
      case d: False
      then have "cluster_loop cs i acc = cluster_loop cs (Suc i) (acc @ [js_last (cs ! i)])"
        using True skip_dropped [of i cs] by (auto simp add: cluster_loop.simps [of cs i acc])
      with 1(2) True d u show ?thesis using skip_dropped [of i cs] by auto
    qed
  next
    case False
    then show ?thesis by (simp add: cluster_loop.simps [of cs i acc])
  qed
qed

lemma cluster_bounds_eq:
  "cluster_bounds cs = map (\<lambda>j. js_last (cs ! j)) (filter (\<lambda>j. \<not> dropped cs j) [0..<length cs])"
  by (simp add: cluster_bounds_def cluster_loop_eq)

lemma ckmeans_bins_bounds: "map upperBound (ckmeans_bins g cs) = cluster_bounds cs"
  by (simp add: ckmeans_bins_def Let_def o_def map_nth)

subsection \<open>The library functions meet what the code relies on\<close>

lemma sorted_last_Max: "sorted s \<Longrightarrow> s \<noteq> [] \<Longrightarrow> last s = Max (set s)"
proof -
  assume s: "sorted s" and ne: "s \<noteq> []"
  have "y \<le> last s" if "y \<in> set s" for y
  proof -
    from that obtain i where i: "i < length s" "s ! i = y" by (auto simp: in_set_conv_nth)
    then have "s ! i \<le> s ! (length s - 1)" using s by (intro sorted_nth_mono) auto
    with i ne show ?thesis by (simp add: last_conv_nth)
  qed
  moreover have "last s \<in> set s" using ne by simp
  ultimately show ?thesis by (intro Max_eqI [symmetric]) auto
qed

lemma quantile_R7_interpolate:
  "quantile_R7 xs p = interpolate (sort xs) ((real (length xs) - 1) * p)"
  by (simp add: quantile_R7_def)

lemma interpolate_bounds:
  assumes s: "sorted s" and h0: "0 \<le> h" and h1: "h \<le> real (length s) - 1"
  shows "s ! nat \<lfloor>h\<rfloor> \<le> interpolate s h"
    and "interpolate s h \<le> s ! min (nat \<lfloor>h\<rfloor> + 1) (length s - 1)"
    and "nat \<lfloor>h\<rfloor> \<le> length s - 1"
proof -
  define lo where "lo = nat \<lfloor>h\<rfloor>"
  define hi where "hi = min (lo + 1) (length s - 1)"
  from h0 h1 have n: "0 < length s" by (cases s) auto
  have fl: "real lo \<le> h" "h - real lo < 1" "0 \<le> h - real lo"
    using h0 by (simp_all add: lo_def) linarith+
  have "h \<le> real_of_int (int (length s) - 1)" using h1 by simp
  then have "\<lfloor>h\<rfloor> \<le> int (length s) - 1" by (metis floor_mono floor_of_int)
  then show lo_le: "nat \<lfloor>h\<rfloor> \<le> length s - 1" by linarith
  then have "lo \<le> hi" "hi < length s" using n unfolding hi_def lo_def by linarith+
  then have le: "s ! lo \<le> s ! hi" using s by (intro sorted_nth_mono) auto
  have e: "interpolate s h = s ! lo + (h - real lo) * (s ! hi - s ! lo)"
    by (simp add: interpolate_def Let_def lo_def hi_def)
  have "0 \<le> (h - real lo) * (s ! hi - s ! lo)" using fl le by simp
  then show "s ! nat \<lfloor>h\<rfloor> \<le> interpolate s h" unfolding e by (simp add: lo_def)
  have "(h - real lo) * (s ! hi - s ! lo) \<le> 1 * (s ! hi - s ! lo)"
    using fl le by (intro mult_right_mono) auto
  then show "interpolate s h \<le> s ! min (nat \<lfloor>h\<rfloor> + 1) (length s - 1)"
    unfolding e by (simp add: lo_def hi_def)
qed

lemma interpolate_mono:
  assumes s: "sorted s" and h0: "0 \<le> h" and hh: "h \<le> h'" and h1: "h' \<le> real (length s) - 1"
  shows "interpolate s h \<le> interpolate s h'"
proof -
  from h0 hh h1 have n: "0 < length s" by (cases s) auto
  have mono: "nat \<lfloor>h\<rfloor> \<le> nat \<lfloor>h'\<rfloor>" using hh by (simp add: floor_mono nat_mono)
  show ?thesis
  proof (cases "nat \<lfloor>h\<rfloor> = nat \<lfloor>h'\<rfloor>")
    case True
    define lo where "lo = nat \<lfloor>h\<rfloor>"
    define hi where "hi = min (lo + 1) (length s - 1)"
    have lo_le: "lo \<le> length s - 1" using interpolate_bounds(3) [OF s h0] hh h1 by (simp add: lo_def)
    then have "lo \<le> hi" "hi < length s" using n unfolding hi_def by linarith+
    then have le: "s ! lo \<le> s ! hi" using s by (intro sorted_nth_mono) auto
    have "interpolate s h' - interpolate s h = (h' - h) * (s ! hi - s ! lo)"
      using True by (simp add: interpolate_def Let_def lo_def hi_def algebra_simps)
    moreover have "0 \<le> (h' - h) * (s ! hi - s ! lo)" using hh le by simp
    ultimately show ?thesis by linarith
  next
    case False
    with mono have lt: "nat \<lfloor>h\<rfloor> + 1 \<le> nat \<lfloor>h'\<rfloor>" by simp
    have b': "nat \<lfloor>h'\<rfloor> \<le> length s - 1" using interpolate_bounds(3) [OF s _ h1] h0 hh by simp
    have "interpolate s h \<le> s ! min (nat \<lfloor>h\<rfloor> + 1) (length s - 1)"
      using interpolate_bounds(2) [OF s h0] hh h1 by simp
    also have "\<dots> \<le> s ! nat \<lfloor>h'\<rfloor>"
      using s lt b' n by (intro sorted_nth_mono) auto
    also have "\<dots> \<le> interpolate s h'" using interpolate_bounds(1) [OF s _ h1] h0 hh by simp
    finally show ?thesis .
  qed
qed

lemma quantile_R7_contract: "quantile_contract quantile_R7"
  unfolding quantile_contract_def
proof (intro allI impI conjI)
  fix xs :: "real list" assume ne: "xs \<noteq> []"
  then have n: "0 < length xs" by simp
  have "nat \<lfloor>real (length xs) - 1\<rfloor> = length xs - 1" using n
    by (metis floor_of_nat nat_int of_nat_1 of_nat_diff Suc_leI One_nat_def)
  moreover have sne: "sort xs \<noteq> []" using ne by (cases xs) auto
  ultimately have "quantile_R7 xs 1 = sort xs ! (length xs - 1)"
    by (simp add: quantile_R7_def interpolate_def Let_def)
  also have "\<dots> = last (sort xs)"
    using last_conv_nth [OF sne] by simp
  also have "\<dots> = Max (set xs)" using sorted_last_Max [of "sort xs"] sne by simp
  finally show "quantile_R7 xs 1 = Max (set xs)" .
next
  fix xs :: "real list" and p p' :: real
  assume ne: "xs \<noteq> []" and p: "0 \<le> p \<and> p \<le> p' \<and> p' \<le> 1"
  then have n: "0 \<le> real (length xs) - 1" by (cases xs) auto
  have "interpolate (sort xs) ((real (length xs) - 1) * p) \<le> interpolate (sort xs) ((real (length xs) - 1) * p')"
  proof (rule interpolate_mono)
    show "sorted (sort xs)" by simp
    show "0 \<le> (real (length xs) - 1) * p" using n p by simp
    show "(real (length xs) - 1) * p \<le> (real (length xs) - 1) * p'"
      using n p by (intro mult_left_mono) auto
    have "(real (length xs) - 1) * p' \<le> (real (length xs) - 1) * 1"
      using n p by (intro mult_left_mono) auto
    then show "(real (length xs) - 1) * p' \<le> real (length (sort xs)) - 1" by simp
  qed
  then show "quantile_R7 xs p \<le> quantile_R7 xs p'" by (simp add: quantile_R7_interpolate)
qed

text \<open>The library's own estimator meets it as well.\<close>

lemma quantileSorted_between:
  assumes s: "sorted s" and n: "s \<noteq> []" and p0: "0 < p" and p1: "p < 1"
  shows "s ! (nat \<lceil>real (length s) * p\<rceil> - 1) \<le> quantileSorted s p"
    and "quantileSorted s p \<le> s ! nat \<lfloor>real (length s) * p\<rfloor>"
    and "nat \<lfloor>real (length s) * p\<rfloor> < length s"
proof -
  define idx where "idx = real (length s) * p"
  have len: "0 < real (length s)" using n by simp
  have i0: "0 < idx" using len p0 by (simp add: idx_def)
  have "idx < real (length s) * 1" unfolding idx_def using len p1 by (intro mult_strict_left_mono) auto
  then have i1: "idx < real (length s)" by simp
  have f0: "0 \<le> \<lfloor>idx\<rfloor>" using i0 by simp
  have "\<lfloor>idx\<rfloor> < int (length s)" using i1 by (simp add: floor_less_iff)
  then show hi: "nat \<lfloor>real (length s) * p\<rfloor> < length s"
    using f0 by (simp add: idx_def nat_less_iff)
  have c1: "1 \<le> \<lceil>idx\<rceil>" using i0 by (simp add: less_ceiling_iff Suc_le_eq)
  have cf: "\<lceil>idx\<rceil> - 1 \<le> \<lfloor>idx\<rfloor>" by linarith
  then have lo_hi: "nat \<lceil>idx\<rceil> - 1 \<le> nat \<lfloor>idx\<rfloor>" using c1 by linarith
  have le: "s ! (nat \<lceil>idx\<rceil> - 1) \<le> s ! nat \<lfloor>idx\<rfloor>"
    using s lo_hi hi by (intro sorted_nth_mono) (auto simp: idx_def)
  have pne: "p \<noteq> 1" "p \<noteq> 0" using p0 p1 by auto
  show "s ! (nat \<lceil>real (length s) * p\<rceil> - 1) \<le> quantileSorted s p"
  proof (cases "idx = of_int \<lfloor>idx\<rfloor>")
    case False
    then show ?thesis using pne by (simp add: quantileSorted_def Let_def idx_def)
  next
    case True
    then have "\<lceil>idx\<rceil> = \<lfloor>idx\<rfloor>" by (metis ceiling_of_int)
    then have e: "nat \<lceil>idx\<rceil> - 1 = nat \<lfloor>idx\<rfloor> - 1" by simp
    have "s ! (nat \<lfloor>idx\<rfloor> - 1) \<le> s ! nat \<lfloor>idx\<rfloor>"
      using s hi by (intro sorted_nth_mono) (auto simp: idx_def)
    then show ?thesis using pne True e
      by (auto simp add: quantileSorted_def Let_def idx_def [symmetric])
  qed
  show "quantileSorted s p \<le> s ! nat \<lfloor>real (length s) * p\<rfloor>"
  proof (cases "idx = of_int \<lfloor>idx\<rfloor>")
    case False
    then show ?thesis using pne le by (simp add: quantileSorted_def Let_def idx_def [symmetric])
  next
    case True
    have "s ! (nat \<lfloor>idx\<rfloor> - 1) \<le> s ! nat \<lfloor>idx\<rfloor>"
      using s hi by (intro sorted_nth_mono) (auto simp: idx_def)
    then show ?thesis using pne True
      by (auto simp add: quantileSorted_def Let_def idx_def [symmetric])
  qed
qed


lemma simplestats_quantile_contract: "quantile_contract simplestats_quantile"
  unfolding quantile_contract_def
proof (intro allI impI conjI)
  fix xs :: "real list" assume ne: "xs \<noteq> []"
  then have sne: "sort xs \<noteq> []" by (cases xs) auto
  have "simplestats_quantile xs 1 = sort xs ! (length (sort xs) - 1)"
    by (simp add: simplestats_quantile_def quantileSorted_def)
  also have "\<dots> = last (sort xs)" using last_conv_nth [OF sne] by simp
  also have "\<dots> = Max (set xs)" using sorted_last_Max [of "sort xs"] sne by simp
  finally show "simplestats_quantile xs 1 = Max (set xs)" .
next
  fix xs :: "real list" and p p' :: real
  assume ne: "xs \<noteq> []" and p: "0 \<le> p \<and> p \<le> p' \<and> p' \<le> 1"
  define s where "s = sort xs"
  have s: "sorted s" and sne: "s \<noteq> []" using ne by (auto simp: s_def) (cases xs; auto)
  have n: "0 < length s" using sne by simp
  have first: "s ! 0 \<le> y" if "y \<in> set s" for y
    using that s sne by (metis in_set_conv_nth sorted_nth_mono le0)
  have lastm: "y \<le> s ! (length s - 1)" if "y \<in> set s" for y
  proof -
    from that obtain i where "i < length s" "s ! i = y" by (auto simp: in_set_conv_nth)
    then show ?thesis using s sorted_nth_mono [of s i "length s - 1"] by auto
  qed
  have q0: "quantileSorted s 0 = s ! 0" by (simp add: quantileSorted_def)
  have q1: "quantileSorted s 1 = s ! (length s - 1)" by (simp add: quantileSorted_def)
  have mem: "s ! 0 \<le> quantileSorted s r \<and> quantileSorted s r \<le> s ! (length s - 1)"
    if "0 < r" "r < 1" for r
  proof -
    note b = quantileSorted_between [OF s sne that]
    have "s ! 0 \<le> s ! (nat \<lceil>real (length s) * r\<rceil> - 1)"
      using s b(3) by (intro sorted_nth_mono) linarith+
    moreover have "s ! nat \<lfloor>real (length s) * r\<rfloor> \<le> s ! (length s - 1)"
      using s b(3) n by (intro sorted_nth_mono) linarith+
    ultimately show ?thesis using b(1,2) by linarith
  qed
  have "quantileSorted s p \<le> quantileSorted s p'"
  proof (cases "p = p'")
    case True
    then show ?thesis by simp
  next
    case False
    with p have lt: "p < p'" by simp
    show ?thesis
    proof (cases "p = 0")
      case True
      show ?thesis
      proof (cases "p' = 1")
        case True
        with \<open>p = 0\<close> q0 q1 show ?thesis using s n sorted_nth_mono [of s 0 "length s - 1"] by simp
      next
        case False
        with p lt \<open>p = 0\<close> mem [of p'] q0 show ?thesis by simp
      qed
    next
      case p0: False
      with p have pp: "0 < p" by simp
      show ?thesis
      proof (cases "p' = 1")
        case True
        with pp lt mem [of p] q1 show ?thesis by simp
      next
        case False
        with p have pp1: "p' < 1" by simp
        note b = quantileSorted_between [OF s sne pp] and b' = quantileSorted_between [OF s sne]
        have pl: "p < 1" and pp0: "0 < p'" using lt pp pp1 by auto
        have "real (length s) * p < real (length s) * p'"
          using lt n by (intro mult_strict_left_mono) auto
        then have "\<lfloor>real (length s) * p\<rfloor> < \<lceil>real (length s) * p'\<rceil>"
          by (meson floor_less_iff less_ceiling_iff order_le_less_trans of_int_floor_le le_of_int_ceiling less_le_trans) 
        then have i: "nat \<lfloor>real (length s) * p\<rfloor> \<le> nat \<lceil>real (length s) * p'\<rceil> - 1"
          by linarith
        have "\<lceil>real (length s) * p'\<rceil> - 1 \<le> \<lfloor>real (length s) * p'\<rfloor>" by linarith
        then have j: "nat \<lceil>real (length s) * p'\<rceil> - 1 < length s"
          using b'(3) [OF pp0 pp1] by linarith
        have "quantileSorted s p \<le> s ! nat \<lfloor>real (length s) * p\<rfloor>" using b(2) [OF pl] .
        also have "\<dots> \<le> s ! (nat \<lceil>real (length s) * p'\<rceil> - 1)"
          using s i j by (intro sorted_nth_mono)
        also have "\<dots> \<le> quantileSorted s p'" using b'(1) [OF pp0 pp1] .
        finally show ?thesis .
      qed
    qed
  qed
  then show "simplestats_quantile xs p \<le> simplestats_quantile xs p'"
    by (simp add: simplestats_quantile_def s_def)
qed

lemma splits_props:
  "p \<in> set (splits k xs) \<Longrightarrow> concat p = xs \<and> length p = k \<and> [] \<notin> set p"
proof (induction k arbitrary: xs p)
  case 0
  then show ?case by (auto split: if_splits)
next
  case (Suc k)
  from Suc.prems obtain n rest where n: "1 \<le> n" "n \<le> length xs"
    and rest: "rest \<in> set (splits k (drop n xs))" and p: "p = take n xs # rest"
    by auto
  from Suc.IH [OF rest] n p show ?case by auto
qed

lemma splits_nonempty:
  "(k = 0 \<and> xs = []) \<or> (1 \<le> k \<and> k \<le> length xs) \<Longrightarrow> splits k xs \<noteq> []"
proof (induction k arbitrary: xs)
  case 0
  then show ?case by simp
next
  case (Suc k)
  then have len: "Suc k \<le> length xs" by simp
  define n where "n = (if k = 0 then length xs else 1)"
  have n: "1 \<le> n" "n \<le> length xs" using len by (auto simp: n_def)
  have "(k = 0 \<and> drop n xs = []) \<or> (1 \<le> k \<and> k \<le> length (drop n xs))"
    using len by (auto simp: n_def)
  from Suc.IH [OF this] obtain r where r: "r \<in> set (splits k (drop n xs))"
    by (cases "splits k (drop n xs)") auto
  have "take n xs # r \<in> set (splits (Suc k) xs)"
    using n r by (auto intro!: bexI [of _ n])
  then show ?case by auto
qed

lemma best_split_in: "best_split p ps \<in> set (p # ps)"
  by (induction ps arbitrary: p) (auto split: if_splits)

lemma ckmeans_model_contract: "ckmeans_contract ckmeans_model"
  unfolding ckmeans_contract_def
proof (intro allI impI)
  fix xs :: "real list" and k :: int
  assume a: "xs \<noteq> [] \<and> 1 \<le> k \<and> k \<le> int (length xs)"
  then have "1 \<le> nat k \<and> nat k \<le> length (sort xs)" by auto
  then have "splits (nat k) (sort xs) \<noteq> []" by (intro splits_nonempty) simp
  then obtain p ps where ps: "splits (nat k) (sort xs) = p # ps"
    by (cases "splits (nat k) (sort xs)") auto
  with a have m: "ckmeans_model xs (Some k) = Inr (best_split p ps)"
    by (simp add: ckmeans_model_def)
  have "best_split p ps \<in> set (splits (nat k) (sort xs))" using best_split_in [of p ps] ps by simp
  from splits_props [OF this] a
  show "\<exists>clusters. ckmeans_model xs (Some k) = Inr clusters \<and> concat clusters = sort xs
      \<and> [] \<notin> set clusters \<and> int (length clusters) \<le> k"
    by (simp add: m)
qed

subsection \<open>The upper bounds of each branch\<close>

lemma sorted_map_upt:
  assumes "\<And>i j. i < j \<Longrightarrow> j < k \<Longrightarrow> f i \<le> (f j :: real)"
  shows "sorted (map f [0..<k])"
proof -
  have "sorted_wrt (\<lambda>x y. f x \<le> f y) [0..<k]"
    by (rule sorted_wrt_mono_rel [OF _ sorted_wrt_upt]) (use assms in auto)
  then show ?thesis by (simp add: sorted_map)
qed

lemma concat_sorted_clusters:
  "sorted (concat cs) \<Longrightarrow> i < j \<Longrightarrow> j < length cs \<Longrightarrow>
   x \<in> set (cs ! i) \<Longrightarrow> y \<in> set (cs ! j) \<Longrightarrow> x \<le> (y :: real)"
proof (induction cs arbitrary: i j)
  case Nil
  then show ?case by simp
next
  case (Cons c cs)
  from Cons.prems(1) have s: "sorted (concat cs)"
    and cross: "\<forall>a\<in>set c. \<forall>b\<in>set (concat cs). a \<le> b"
    by (auto simp: sorted_append)
  from Cons.prems(2) obtain j' where j': "j = Suc j'" by (cases j) auto
  show ?case
  proof (cases i)
    case 0
    with Cons.prems j' have "x \<in> set c" and "y \<in> set (concat cs)" by auto
    with cross show ?thesis by blast
  next
    case (Suc i')
    with Cons.prems j' Cons.IH [OF s, of i' j'] show ?thesis by simp
  qed
qed

lemma last_concat_nonempty:
  "cs \<noteq> [] \<Longrightarrow> last cs \<noteq> [] \<Longrightarrow> last (concat cs) = last (last cs)"
proof -
  assume "cs \<noteq> []" and l: "last cs \<noteq> []"
  then have "concat cs = concat (butlast cs) @ last cs"
    by (metis append_butlast_last_id concat_append concat.simps append_Nil2)
  with l show ?thesis by simp
qed

lemma last_kept:
  assumes K: "K = (\<lambda>j. filter (\<lambda>i. \<not> dropped cs i) [0..<Suc j])"
  shows "j < length cs \<Longrightarrow> K j \<noteq> [] \<and> js_last (cs ! last (K j)) = js_last (cs ! j)"
proof (induction j)
  case 0
  have "K 0 = [0]" by (simp add: K dropped_def)
  then show ?case by simp
next
  case (Suc j)
  then have IH: "K j \<noteq> []" "js_last (cs ! last (K j)) = js_last (cs ! j)"
    by simp_all
  have step: "K (Suc j) = K j @ (if dropped cs (Suc j) then [] else [Suc j])"
    by (simp add: K)
  show ?case
  proof (cases "dropped cs (Suc j)")
    case True
    then have one: "length (cs ! Suc j) = 1" and pre: "cs ! j \<noteq> []"
      and eq: "hd (cs ! Suc j) = last (cs ! j)"
      by (simp_all add: dropped_def)
    from one have "last (cs ! Suc j) = hd (cs ! Suc j)" and "cs ! Suc j \<noteq> []"
      by (cases "cs ! Suc j"; simp)+
    with pre eq have "js_last (cs ! Suc j) = js_last (cs ! j)" by (simp add: js_last_eq)
    with True IH step show ?thesis by simp
  next
    case False
    with step show ?thesis by simp
  qed
qed

lemma cluster_bounds_props:
  assumes c: "concat cs = sort xs" and ne: "[] \<notin> set cs" and xs: "xs \<noteq> []"
  shows "\<exists>bs. cluster_bounds cs = map Some bs \<and> bs \<noteq> [] \<and> sorted bs \<and>
           last bs = Max (set xs) \<and> length bs \<le> length cs"
proof -
  define keep where "keep = filter (\<lambda>j. \<not> dropped cs j) [0..<length cs]"
  define bs where "bs = map (\<lambda>j. last (cs ! j)) keep"
  have sx: "sort xs \<noteq> []" using xs by (cases xs) auto
  with c have csne: "cs \<noteq> []" by auto
  then have L: "0 < length cs" by simp
  have mem: "cs ! j \<noteq> []" if "j < length cs" for j
    using that ne nth_mem by metis
  have in_keep: "j < length cs" if "j \<in> set keep" for j using that by (simp add: keep_def)
  have "cluster_bounds cs = map (\<lambda>j. js_last (cs ! j)) keep"
    by (simp add: cluster_bounds_eq keep_def)
  also have "\<dots> = map Some bs"
    unfolding bs_def using in_keep mem by (simp add: js_last_eq)
  finally have a: "cluster_bounds cs = map Some bs" .
  have sc: "sorted (concat cs)" by (simp add: c)
  have le: "last (cs ! i) \<le> last (cs ! j)" if "i < j" "j < length cs" for i j
    using concat_sorted_clusters [OF sc that] mem that by simp
  have "sorted_wrt (\<lambda>i j. last (cs ! i) \<le> last (cs ! j)) [0..<length cs]"
    by (rule sorted_wrt_mono_rel [OF _ sorted_wrt_upt]) (use le in auto)
  then have b: "sorted bs"
    unfolding bs_def keep_def by (simp add: sorted_map sorted_wrt_filter)
  from L obtain k where k: "length cs = Suc k" by (cases "length cs") auto
  from last_kept [OF refl, of k cs] k
  have kne: "keep \<noteq> []" and kl: "js_last (cs ! last keep) = js_last (cs ! (length cs - 1))"
    unfolding keep_def by simp_all
  from kne have bne: "bs \<noteq> []" by (simp add: bs_def)
  have lk: "last keep < length cs" using kne in_keep by simp
  from kl mem [OF lk] mem [of "length cs - 1"] L
  have "last (cs ! last keep) = last (cs ! (length cs - 1))" by (simp add: js_last_eq)
  also have "\<dots> = last (last cs)" using csne by (simp add: last_conv_nth)
  also have "\<dots> = last (concat cs)"
    using last_concat_nonempty [OF csne] ne csne by (metis last_in_set)
  also have "\<dots> = Max (set xs)" using sorted_last_Max [of "sort xs"] sx c by simp
  finally have d: "last bs = Max (set xs)" using kne by (simp add: bs_def last_map)
  have e: "length bs \<le> length cs"
    unfolding bs_def keep_def using length_filter_le [of _ "[0..<length cs]"] by simp
  from a bne b d e show ?thesis by blast
qed

lemma quantile_bounds_props:
  assumes q: "quantile_contract q" and xs: "xs \<noteq> []" and bc: "1 \<le> bc"
  shows "\<exists>bs. map upperBound (quantile_bins q g xs bc) = map Some bs \<and> bs \<noteq> [] \<and> sorted bs \<and>
           last bs = Max (set xs) \<and> length bs = nat bc"
proof -
  define f where "f = (\<lambda>j. q xs (real (j + 1) / real_of_int bc))"
  define bs where "bs = map f [0..<nat bc]"
  have a: "map upperBound (quantile_bins q g xs bc) = map Some bs"
    by (simp add: quantile_bins_bounds bs_def f_def)
  from q xs have q1: "q xs 1 = Max (set xs)"
    and mono: "\<And>p p'. 0 \<le> p \<Longrightarrow> p \<le> p' \<Longrightarrow> p' \<le> 1 \<Longrightarrow> q xs p \<le> q xs p'"
    by (auto simp: quantile_contract_def)
  have pos: "0 < real_of_int bc" using bc by simp
  have "f i \<le> f j" if "i < j" "j < nat bc" for i j
    unfolding f_def
  proof (rule mono)
    show "0 \<le> real (i + 1) / real_of_int bc" using pos by simp
    show "real (i + 1) / real_of_int bc \<le> real (j + 1) / real_of_int bc"
      using pos that by (simp add: divide_right_mono)
    have "real (j + 1) \<le> real_of_int bc" using that by linarith
    then show "real (j + 1) / real_of_int bc \<le> 1" using pos by simp
  qed
  then have b: "sorted bs" unfolding bs_def by (rule sorted_map_upt)
  have ne: "[0..<nat bc] \<noteq> []" using bc by simp
  then have bne: "bs \<noteq> []" by (simp add: bs_def)
  have "last [0..<nat bc] = nat bc - 1" using bc by simp
  then have "last bs = f (nat bc - 1)" using ne by (simp add: bs_def last_map)
  also have "real (nat bc - 1 + 1) = real_of_int bc" using bc by simp
  then have "f (nat bc - 1) = q xs 1" unfolding f_def using pos by simp
  finally have d: "last bs = Max (set xs)" using q1 by simp
  have "length bs = nat bc" by (simp add: bs_def)
  with a bne b d show ?thesis by blast
qed

lemma ckmeans_model_example:
  "ckmeans_model [1, 1, 1, 2, 2, 2, 9, 9, 9] (Some 3) = Inr [[1, 1, 1], [2, 2, 2], [9, 9, 9]]"
  by code_simp





subsection \<open>The choice of the strategy\<close>




subsection \<open>The clusters that are dropped\<close>

text \<open>
  Claim C3. In the clustering branch, once the library has returned its clusters, the upper
  bounds are the last elements of the clusters that are kept, in order, and cluster \<open>i\<close> is dropped exactly when it is not the
  first, has one element, and that element equals the last element of cluster \<open>i - 1\<close>.
  When the clustering of 1, 1, 1, 2, 2, 2, 9, 9, 9 into three is the partition by value, the
  upper bounds are 1, 2, 9.
\<close>

theorem buildBinColors_cluster_drop:
  "(values_col col = Some vals \<and> colorBins st = Some n \<and> 0 < n
      \<and> \<not> match_none (colorBinMethod st)
      \<and> \<not> (colorBinMethod st = ''quantile''
             \<or> colorBinMethod st = ''auto'' \<and> 1000 < length (numericalValues vals))
      \<and> ck (numericalValues vals) (Some (min n (int (length (numericalValues vals)))))
           = Inr clusters
     \<longrightarrow>
     (\<exists>bins. buildBinColors q ck col st g = Inr (Some bins) \<and>
        map upperBound bins =
          map (\<lambda>i. js_last (clusters ! i))
              (filter (\<lambda>i. \<not> dropped clusters i) [0..<length clusters])))
   \<and> (ck [1, 1, 1, 2, 2, 2, 9, 9, 9] (Some 3) = Inr [[1, 1, 1], [2, 2, 2], [9, 9, 9]] \<longrightarrow>
       (\<exists>bins. buildBinColors q ck
          \<lparr>name = ''v'',
           values_col = Some [JNum 1, JNum 1, JNum 1, JNum 2, JNum 2, JNum 2,
                              JNum 9, JNum 9, JNum 9],
           type_col = SCALAR, enumList = [], minimumValue = Some 1, maximumValue = Some 9\<rparr>
          \<lparr>colorBins = Some 3, legendTicks = Some 0, colorBinMethod = ''auto'',
           colorMap = None, minDisplayValue = None, maxDisplayValue = None\<rparr> g = Inr (Some bins) \<and>
        map upperBound bins = [Some 1, Some 2, Some 9]))"
proof (intro conjI impI)
  assume a: "values_col col = Some vals \<and> colorBins st = Some n \<and> 0 < n
      \<and> \<not> match_none (colorBinMethod st)
      \<and> \<not> (colorBinMethod st = ''quantile''
             \<or> colorBinMethod st = ''auto'' \<and> 1000 < length (numericalValues vals))
      \<and> ck (numericalValues vals) (Some (min n (int (length (numericalValues vals)))))
           = Inr clusters"
  then have "buildBinColors q ck col st g = Inr (Some (ckmeans_bins g clusters))"
    by (auto simp add: buildBinColors_def Let_def js_le0_def js_min_def use_quantile_def)
  then show "\<exists>bins. buildBinColors q ck col st g = Inr (Some bins) \<and>
        map upperBound bins =
          map (\<lambda>i. js_last (clusters ! i))
              (filter (\<lambda>i. \<not> dropped clusters i) [0..<length clusters])"
    by (simp add: ckmeans_bins_bounds cluster_bounds_eq)
next
  assume c: "ck [1, 1, 1, 2, 2, 2, 9, 9, 9] (Some 3) = Inr [[1, 1, 1], [2, 2, 2], [9, 9, 9]]"
  have "buildBinColors q ck
          \<lparr>name = ''v'',
           values_col = Some [JNum 1, JNum 1, JNum 1, JNum 2, JNum 2, JNum 2,
                              JNum 9, JNum 9, JNum 9],
           type_col = SCALAR, enumList = [], minimumValue = Some 1, maximumValue = Some 9\<rparr>
          \<lparr>colorBins = Some 3, legendTicks = Some 0, colorBinMethod = ''auto'',
           colorMap = None, minDisplayValue = None, maxDisplayValue = None\<rparr> g
      = Inr (Some (ckmeans_bins g [[1, 1, 1], [2, 2, 2], [9, 9, 9]]))"
    by (simp add: buildBinColors_def Let_def js_le0_def js_min_def use_quantile_def c)
  moreover have "cluster_bounds [[1, 1, 1], [2, 2, 2], [9, 9, 9]] = [Some 1, Some 2, Some 9]"
  proof -
    have u: "[0..<3::nat] = [0, 1, 2]" by code_simp
    have l: "length [[1, 1, 1], [2, 2, 2], [9, 9, 9 :: real]] = 3" by simp
    show ?thesis unfolding cluster_bounds_eq l u by (simp add: dropped_def js_last_eq)
  qed
  ultimately show "\<exists>bins. buildBinColors q ck
          \<lparr>name = ''v'',
           values_col = Some [JNum 1, JNum 1, JNum 1, JNum 2, JNum 2, JNum 2,
                              JNum 9, JNum 9, JNum 9],
           type_col = SCALAR, enumList = [], minimumValue = Some 1, maximumValue = Some 9\<rparr>
          \<lparr>colorBins = Some 3, legendTicks = Some 0, colorBinMethod = ''auto'',
           colorMap = None, minDisplayValue = None, maxDisplayValue = None\<rparr> g = Inr (Some bins) \<and>
        map upperBound bins = [Some 1, Some 2, Some 9]"
    by (simp add: ckmeans_bins_bounds)
qed

theorem buildBinColors_cluster_drop_witness:
  "\<exists>bins. buildBinColors quantile_R7 ckmeans_model
          \<lparr>name = ''v'',
           values_col = Some [JNum 1, JNum 1, JNum 1, JNum 2, JNum 2, JNum 2,
                              JNum 9, JNum 9, JNum 9],
           type_col = SCALAR, enumList = [], minimumValue = Some 1, maximumValue = Some 9\<rparr>
          \<lparr>colorBins = Some 3, legendTicks = Some 0, colorBinMethod = ''auto'',
           colorMap = None, minDisplayValue = None, maxDisplayValue = None\<rparr> [] = Inr (Some bins) \<and>
        map upperBound bins = [Some 1, Some 2, Some 9]"
proof -
  have u: "[0..<3::nat] = [0, 1, 2]" by code_simp
  show ?thesis
    using buildBinColors_cluster_drop
      [where ck = ckmeans_model and q = quantile_R7 and g = "[]"
        and col = "\<lparr>name = ''v'',
           values_col = Some [JNum 1, JNum 1, JNum 1, JNum 2, JNum 2, JNum 2,
                              JNum 9, JNum 9, JNum 9],
           type_col = SCALAR, enumList = [], minimumValue = Some 1, maximumValue = Some 9\<rparr>"
        and st = "\<lparr>colorBins = Some 3, legendTicks = Some 0, colorBinMethod = ''auto'',
           colorMap = None, minDisplayValue = None, maxDisplayValue = None\<rparr>"
        and vals = "[JNum 1, JNum 1, JNum 1, JNum 2, JNum 2, JNum 2, JNum 9, JNum 9, JNum 9]"
        and n = 3 and clusters = "[[1, 1, 1], [2, 2, 2], [9, 9, 9]]", THEN conjunct1]
    by (simp add: ckmeans_model_example u dropped_def js_last_eq)
qed

subsection \<open>No binning\<close>

text \<open>
  The cases in which no boundary is produced: \<open>buildBinColors\<close> returns undefined when the
  values are undefined, the bin count is at most 0 or the method contains "none", and the
  quantile branch returns an empty array for a sample without numeric values.
\<close>

lemma buildBinColors_guard:
  "values_col col = None \<or> (\<exists>n. colorBins st = Some n \<and> n \<le> 0)
     \<or> match_none (colorBinMethod st) \<Longrightarrow>
   buildBinColors q ck col st g = Inr None"
  by (auto simp: buildBinColors_def js_le0_def split: option.splits)

lemma buildBinColors_quantile_no_numbers:
  "values_col col = Some vals \<Longrightarrow> numericalValues vals = [] \<Longrightarrow> colorBins st = Some n \<Longrightarrow>
   0 < n \<Longrightarrow> \<not> match_none (colorBinMethod st) \<Longrightarrow> colorBinMethod st = ''quantile'' \<Longrightarrow>
   buildBinColors q ck col st g = Inr (Some [])"
  by (simp add: buildBinColors_def Let_def js_le0_def js_min_def use_quantile_def
      quantile_bins_def quantile_loop.simps)

lemma buildBinColors_cluster_no_numbers:
  "values_col col = Some vals \<Longrightarrow> numericalValues vals = [] \<Longrightarrow> colorBins st = Some n \<Longrightarrow>
   0 < n \<Longrightarrow> \<not> match_none (colorBinMethod st) \<Longrightarrow> colorBinMethod st \<noteq> ''quantile'' \<Longrightarrow>
   buildBinColors q ck col st g
     = (case ck [] (Some 0) of
          Inl e \<Rightarrow> Inl e
        | Inr clusters \<Rightarrow> Inr (Some (ckmeans_bins g clusters)))"
  by (simp add: buildBinColors_def Let_def js_le0_def js_min_def use_quantile_def)

text \<open>
  Claim C7. The claim has \<open>buildBinColors\<close> return the empty result, with no boundary, also
  when the sample holds no numeric value. The quantile branch does so (an empty array), but
  the clustering branch, which the default method \<open>auto\<close> takes, has no guard for the empty
  sample: it asks the library for 0 clusters of no values, the library throws, and the
  error leaves \<open>buildBinColors\<close> in place of a result.
\<close>

theorem buildBinColors_no_numbers_throws:
  "buildBinColors simplestats_quantile ckmeans_model
     \<lparr>name = ''v'', values_col = Some [JStr ''a'', JNull], type_col = SCALAR, enumList = [],
      minimumValue = None, maximumValue = None\<rparr>
     \<lparr>colorBins = Some 7, legendTicks = Some 0, colorBinMethod = ''auto'',
      colorMap = None, minDisplayValue = None, maxDisplayValue = None\<rparr>
     [1, 2, 3, 4, 5, 6, 7, 8] = Inl TypeError \<and>
   buildBinColors simplestats_quantile ckmeans_model
     \<lparr>name = ''v'', values_col = Some [JStr ''a'', JNull], type_col = SCALAR, enumList = [],
      minimumValue = None, maximumValue = None\<rparr>
     \<lparr>colorBins = Some 7, legendTicks = Some 0, colorBinMethod = ''quantile'',
      colorMap = None, minDisplayValue = None, maxDisplayValue = None\<rparr>
     [1, 2, 3, 4, 5, 6, 7, 8] = Inr (Some [])"
  by (simp add: buildBinColors_def Let_def js_le0_def js_min_def use_quantile_def
      quantile_bins_def quantile_loop.simps ckmeans_model_def)

subsection \<open>The sequence of upper bounds\<close>

text \<open>
  Claim C1, as stated, bounds the number of bins by the number of distinct values. The
  quantile branch makes as many bins as the smaller of the requested count and the number
  of numeric values, distinct or not: two bins for the values 1, 1.
\<close>

theorem buildBinColors_quantile_exceeds_distinct:
  "buildBinColors quantile_R7 ckmeans_model
     \<lparr>name = ''v'', values_col = Some [JNum 1, JNum 1], type_col = SCALAR, enumList = [],
      minimumValue = Some 1, maximumValue = Some 1\<rparr>
     \<lparr>colorBins = Some 2, legendTicks = Some 0, colorBinMethod = ''quantile'',
      colorMap = None, minDisplayValue = None, maxDisplayValue = None\<rparr>
     [1, 2, 3, 4, 5, 6, 7, 8]
   = Inr (Some [\<lparr>upperBound = Some 1, color = [Some 1, Some 2, Some 3, Some 4]\<rparr>,
                \<lparr>upperBound = Some 1, color = [Some 5, Some 6, Some 7, Some 8]\<rparr>]) \<and>
   \<not> length [\<lparr>upperBound = Some 1, color = [Some 1, Some 2, Some 3, Some 4]\<rparr>,
             \<lparr>upperBound = Some 1, color = [Some 5, Some 6, Some 7, Some 8]\<rparr>]
       \<le> min 2 (length (remdups [1, 1 :: real]))"
proof -
  have u: "[0..<2::nat] = [0, 1]" by code_simp
  have q: "quantile_R7 [1, 1] (1 / 2) = 1" "quantile_R7 [1, 1] 1 = 1"
    by (simp_all add: quantile_R7_def interpolate_def Let_def)
  show ?thesis
    by (simp add: buildBinColors_def Let_def js_le0_def js_min_def use_quantile_def
        quantile_bins_def quantile_loop_eq u q getColorFromColorGradient_def js_div_def js_index_def)
qed

text \<open>
  Claim C1, amended. For a sample with at least one numeric value, a requested bin count of
  at least 1 and a method without "none", and library functions that meet what the code
  relies on, \<open>buildBinColors\<close> returns bins whose upper bounds are numbers, are
  non-decreasing, end with the maximum of the numeric values, and are at most as many as
  the smaller of the requested count and the number of numeric values.
\<close>

theorem buildBinColors_bounds:
  assumes vals: "values_col col = Some vals" and ne: "numericalValues vals \<noteq> []"
    and n: "colorBins st = Some n" "1 \<le> n" and m: "\<not> match_none (colorBinMethod st)"
    and q: "quantile_contract q" and ck: "ckmeans_contract ck"
  shows "\<exists>bins bs. buildBinColors q ck col st g = Inr (Some bins) \<and>
           map upperBound bins = map Some bs \<and> bs \<noteq> [] \<and> sorted bs \<and>
           last bs = Max (set (numericalValues vals)) \<and>
           length bs \<le> min (nat n) (length (numericalValues vals))"
proof -
  define nums where "nums = numericalValues vals"
  define bc where "bc = min n (int (length nums))"
  have nn: "nums \<noteq> []" using ne by (simp add: nums_def)
  then have bc1: "1 \<le> bc" and bcl: "bc \<le> int (length nums)" using n(2)
    by (auto simp: bc_def) (cases nums; simp)
  have nbc: "nat bc = min (nat n) (length nums)" using n(2) by (simp add: bc_def min_def) linarith
  have g: "\<not> js_le0 (colorBins st)" using n by (simp add: js_le0_def)
  have jm: "js_min (colorBins st) (length nums) = Some bc" using n by (simp add: js_min_def bc_def)
  show ?thesis
  proof (cases "use_quantile (colorBinMethod st) (length nums)")
    case True
    then have r: "buildBinColors q ck col st g = Inr (Some (quantile_bins q g nums bc))"
      using vals g m jm by (simp add: buildBinColors_def Let_def nums_def)
    from quantile_bounds_props [OF q nn bc1, of g] r nbc show ?thesis
      unfolding nums_def by auto
  next
    case False
    from ck nn bc1 bcl obtain cs where cs: "ck nums (Some bc) = Inr cs"
      and c: "concat cs = sort nums" and e: "[] \<notin> set cs" and l: "int (length cs) \<le> bc"
      unfolding ckmeans_contract_def by blast
    from False have r: "buildBinColors q ck col st g = Inr (Some (ckmeans_bins g cs))"
      using vals g m jm cs by (simp add: buildBinColors_def Let_def nums_def)
    from cluster_bounds_props [OF c e nn] obtain bs where
      bs: "cluster_bounds cs = map Some bs" "bs \<noteq> []" "sorted bs"
        "last bs = Max (set nums)" "length bs \<le> length cs"
      by blast
    from bs(5) l have "length bs \<le> nat bc" by linarith
    with r bs nbc show ?thesis unfolding nums_def by (auto simp: ckmeans_bins_bounds)
  qed
qed

theorem buildBinColors_bounds_witness:
  "\<exists>bins bs. buildBinColors quantile_R7 ckmeans_model
       \<lparr>name = ''v'', values_col = Some [JNum 3, JStr ''x'', JNum 1, JNum 2],
        type_col = SCALAR, enumList = [], minimumValue = Some 1, maximumValue = Some 3\<rparr>
       \<lparr>colorBins = Some 2, legendTicks = Some 0, colorBinMethod = ''auto'',
        colorMap = None, minDisplayValue = None, maxDisplayValue = None\<rparr> [] = Inr (Some bins) \<and>
     map upperBound bins = map Some bs \<and> bs \<noteq> [] \<and> sorted bs \<and> last bs = 3 \<and> length bs \<le> 2"
  using buildBinColors_bounds
      [OF _ _ _ _ _ quantile_R7_contract ckmeans_model_contract,
      of "\<lparr>name = ''v'', values_col = Some [JNum 3, JStr ''x'', JNum 1, JNum 2],
        type_col = SCALAR, enumList = [], minimumValue = Some 1, maximumValue = Some 3\<rparr>"
      "[JNum 3, JStr ''x'', JNum 1, JNum 2]"
      "\<lparr>colorBins = Some 2, legendTicks = Some 0, colorBinMethod = ''auto'',
        colorMap = None, minDisplayValue = None, maxDisplayValue = None\<rparr>" 2 "[]"]
  by (simp add: numeral_2_eq_2)

end
